theory Spec2Isabelle
  imports Complex_Main
begin

section \<open>Query classifier and gate rewriting (utils/cypher-utils.js)\<close>

text \<open>
  JavaScript strings are modelled as \<^typ>\<open>string\<close>. The classifier builds the regular
  expression \<^verbatim>\<open>/\b(CREATE|SET|DELETE|REMOVE|MERGE)\b/i\<close> and calls \<^verbatim>\<open>test\<close> on the
  query. The definitions below follow the ECMAScript matcher for that expression: the
  search tries every start index from 0 to the length of the input, the assertion
  \<^verbatim>\<open>\b\<close> compares \<^verbatim>\<open>IsWordChar(e - 1)\<close> with \<^verbatim>\<open>IsWordChar(e)\<close>, and with the
  \<^verbatim>\<open>i\<close> flag (and no \<^verbatim>\<open>u\<close> flag) two characters match when their canonical
  (upper-case) forms agree; a character outside ASCII never canonicalises to an ASCII
  letter.
\<close>

definition writeOperators :: "string list" where
  "writeOperators = [''CREATE'', ''SET'', ''DELETE'', ''REMOVE'', ''MERGE'']"

definition isWordChar :: "char \<Rightarrow> bool" where
  "isWordChar c = (let n = (of_char c :: nat) in
      (97 \<le> n \<and> n \<le> 122) \<or> (65 \<le> n \<and> n \<le> 90) \<or> (48 \<le> n \<and> n \<le> 57) \<or> n = 95)"

definition canonicalize :: "char \<Rightarrow> char" where
  "canonicalize c = (let n = (of_char c :: nat) in
      if 97 \<le> n \<and> n \<le> 122 then char_of (n - 32) else c)"

definition wordAt :: "string \<Rightarrow> int \<Rightarrow> bool" where
  "wordAt q e = (if e = -1 \<or> e = int (length q) then False else isWordChar (q ! nat e))"

definition wordBoundary :: "string \<Rightarrow> nat \<Rightarrow> bool" where
  "wordBoundary q e = (wordAt q (int e - 1) \<noteq> wordAt q (int e))"

definition matchesAt :: "string \<Rightarrow> string \<Rightarrow> nat \<Rightarrow> bool" where
  "matchesAt w q i = (i + length w \<le> length q \<and>
      map canonicalize (take (length w) (drop i q)) = map canonicalize w)"

definition matchAt :: "string \<Rightarrow> nat \<Rightarrow> bool" where
  "matchAt q i = (wordBoundary q i \<and>
      (\<exists>w \<in> set writeOperators. matchesAt w q i \<and> wordBoundary q (i + length w)))"

definition containsWriteOperations :: "string \<Rightarrow> bool" where
  "containsWriteOperations q = (\<exists>i \<in> set [0..<Suc (length q)]. matchAt q i)"

text \<open>
  The rule as the specification words it: the query splits into a prefix, an occurrence
  and a suffix, the occurrence is one of the five operators up to letter case, and the
  occurrence stands alone, that is, the character before it (if any) and the character
  after it (if any) are not word characters.
\<close>

definition standaloneWriteKeyword :: "string \<Rightarrow> bool" where
  "standaloneWriteKeyword q = (\<exists>pre w post. q = pre @ w @ post \<and>
      map canonicalize w \<in> set writeOperators \<and>
      (pre = [] \<or> \<not> isWordChar (last pre)) \<and>
      (post = [] \<or> \<not> isWordChar (hd post)))"

text \<open>
  \<^verbatim>\<open>wrapWithSecurityCheck\<close> is a template literal: the token name and the query are
  interpolated verbatim, without escaping.
\<close>

definition wrapWithSecurityCheck :: "string \<Rightarrow> string \<Rightarrow> string" where
  "wrapWithSecurityCheck query securityNodeName =
     [CHR 0x0A] @ ''    // Security check to ensure only authorized operations are performed'' @
     [CHR 0x0A] @ ''    MATCH (security:SecurityNode {name: '' @ [CHR 0x22] @ securityNodeName @ [CHR 0x22] @ ''})'' @
     [CHR 0x0A] @ ''    WITH security'' @
     [CHR 0x0A] @ ''    WHERE security IS NOT NULL'' @
     [CHR 0x0A] @ ''    // Original query follows'' @
     [CHR 0x0A] @ ''    '' @ query @
     [CHR 0x0A] @ ''  ''"

section \<open>JavaScript values, errors and the backing store\<close>

text \<open>
  Values that cross the protocol, the driver and the text generator are JSON values; a
  missing property (\<^verbatim>\<open>undefined\<close>) is \<open>None\<close> of an option type. A number is
  written as a rational and stands for the double nearest to it. A character is a code
  unit below 256.
\<close>

datatype json =
    JNull
  | JBool bool
  | JNum rat
  | JStr string
  | JArr "json list"
  | JObj "(string \<times> json) list"

fun truthy :: "json \<Rightarrow> bool" where
  "truthy JNull = False"
| "truthy (JBool b) = b"
| "truthy (JNum n) = (n \<noteq> 0)"
| "truthy (JStr s) = (s \<noteq> [])"
| "truthy (JArr xs) = True"
| "truthy (JObj kvs) = True"

definition truthyOpt :: "json option \<Rightarrow> bool" where
  "truthyOpt v = (case v of None \<Rightarrow> False | Some j \<Rightarrow> truthy j)"

text \<open>Reading a property of a value that is neither \<^verbatim>\<open>undefined\<close> nor \<^verbatim>\<open>null\<close>.\<close>

fun getProp :: "json \<Rightarrow> string \<Rightarrow> json option" where
  "getProp (JObj kvs) k = map_of kvs k"
| "getProp _ k = None"

datatype js_error =
    TypeError
  | StoreError string
  | NotFound string
  | LLMError

text \<open>
  Entities and relations are plain objects. A relation read back from the store is the
  property map of the relationship, so its \<^verbatim>\<open>from\<close> and \<^verbatim>\<open>to\<close> may be missing;
  an entity read back from the store carries the \<^verbatim>\<open>entityID\<close> property of its node.
  The two timestamps of a node are not modelled.
\<close>

record entity =
  name :: string
  entityType :: string
  observations :: "string list"
  entityID :: "string option"

record relation =
  from_name :: "string option"
  to_name :: "string option"
  relationType :: "string option"

record graph =
  entities :: "entity list"
  relations :: "relation list"

text \<open>
  The database: the nodes labelled \<^verbatim>\<open>Memory\<close> with their property maps, the
  relationships between them (source node, target node, \<^verbatim>\<open>relationType\<close>), the names
  of the nodes labelled \<^verbatim>\<open>SecurityNode\<close>, and the rest of the database, which only
  free-form Cypher reads and writes.
\<close>

record db =
  nodes :: "(nat \<times> entity) list"
  edges :: "(nat \<times> nat \<times> string) list"
  securityNodes :: "string list"
  nextId :: nat
  otherData :: json

record llm_response =
  text_of :: string
  json_of :: "json option"
  fenced :: "json option"

text \<open>
  What is handed to \<^verbatim>\<open>executeCypherQuery\<close>: one of the two statements of the token gate
  with its name, a text with its parameters, or a generated statement of the ontology
  workflow, \<open>Generated q subject structure\<close>, which is the value \<open>q\<close> (whatever
  \<^verbatim>\<open>queryObj.query\<close> is) with the parameters
  \<^verbatim>\<open>{subject, ontologyStructureJson: JSON.stringify(structure)}\<close>; the serialisation is
  left to the engine.
\<close>

datatype cypher =
    CreateSecurityNode string
  | RemoveSecurityNode string
  | Text string json
  | Generated "json option" string json

datatype event =
    Executed cypher bool bool
  | CalledLLM

text \<open>
  The world a request runs in: the database, the number of driver sessions that are
  open, the outcome of the coming store calls (\<open>Some code\<close>: the call throws a driver
  error with that code and its transaction is rolled back), the coming answers of the
  text generator (\<open>None\<close>: the call throws), and the log of the calls made through
  \<^verbatim>\<open>executeCypherQuery\<close> (statement, write flag, success) and \<^verbatim>\<open>callLLM\<close>.
\<close>

record world =
  store :: db
  openSessions :: nat
  faults :: "string option list"
  replies :: "llm_response option list"
  trace :: "event list"

text \<open>The meaning of free-form Cypher is a parameter: statement, write flag, database.\<close>

type_synonym engine = "cypher \<Rightarrow> bool \<Rightarrow> db \<Rightarrow> db \<times> json list"

type_synonym 'a prog = "world \<Rightarrow> (js_error + 'a) \<times> world"

definition ret :: "'a \<Rightarrow> 'a prog" where
  "ret x w = (Inr x, w)"

definition throw :: "js_error \<Rightarrow> 'a prog" where
  "throw e w = (Inl e, w)"

definition bind :: "'a prog \<Rightarrow> ('a \<Rightarrow> 'b prog) \<Rightarrow> 'b prog" where
  "bind m f w = (case m w of (Inl e, w') \<Rightarrow> (Inl e, w') | (Inr x, w') \<Rightarrow> f x w')"

text \<open>
  \<^verbatim>\<open>try { body } finally { fin }\<close>: the finalizer always runs; when it throws, its error
  replaces the outcome of the body.
\<close>

definition tryFinally :: "'a prog \<Rightarrow> unit prog \<Rightarrow> 'a prog" where
  "tryFinally body fin w =
     (case body w of (r, w1) \<Rightarrow>
        (case fin w1 of (Inl e, w2) \<Rightarrow> (Inl e, w2) | (Inr u, w2) \<Rightarrow> (r, w2)))"

definition tryCatch :: "'a prog \<Rightarrow> (js_error \<Rightarrow> 'a prog) \<Rightarrow> 'a prog" where
  "tryCatch body handler w =
     (case body w of (Inl e, w1) \<Rightarrow> handler e w1 | (Inr x, w1) \<Rightarrow> (Inr x, w1))"

definition session :: "world \<Rightarrow> world" where
  "session w = w\<lparr>openSessions := Suc (openSessions w)\<rparr>"

definition close :: "world \<Rightarrow> world" where
  "close w = w\<lparr>openSessions := openSessions w - 1\<rparr>"

definition takeFault :: "world \<Rightarrow> string option \<times> world" where
  "takeFault w = (case faults w of [] \<Rightarrow> (None, w) | f # fs \<Rightarrow> (f, w\<lparr>faults := fs\<rparr>))"

subsection \<open>The statements of the adapter\<close>

text \<open>
  \<^verbatim>\<open>MATCH (entity:Memory) OPTIONAL MATCH (entity)-[r]->(other) RETURN entity, collect(r)\<close>,
  reduced to \<^verbatim>\<open>entityNode.properties\<close> and \<^verbatim>\<open>r.properties\<close>.
\<close>

definition readGraph :: "db \<Rightarrow> graph" where
  "readGraph s = \<lparr>entities = map snd (nodes s),
     relations = concat (map (\<lambda>(i, p).
       [\<lparr>from_name = None, to_name = None, relationType = Some ty\<rparr>. (a, b, ty) \<leftarrow> edges s, a = i])
       (nodes s))\<rparr>"

text \<open>\<^verbatim>\<open>entityMemory += entity\<close>: every property of the entity is written to the node.\<close>

definition setProps :: "entity \<Rightarrow> entity \<Rightarrow> entity" where
  "setProps n e = \<lparr>name = name e, entityType = entityType e, observations = observations e,
     entityID = (case entityID e of None \<Rightarrow> entityID n | Some i \<Rightarrow> Some i)\<rparr>"

text \<open>\<^verbatim>\<open>MERGE (entityMemory:Memory { entityID: entity.name }) ... SET entityMemory += entity\<close>\<close>

definition mergeEntity :: "entity \<Rightarrow> db \<Rightarrow> db" where
  "mergeEntity e s =
     (if \<exists>(i, p) \<in> set (nodes s). entityID p = Some (name e)
      then s\<lparr>nodes := map (\<lambda>(i, p). if entityID p = Some (name e) then (i, setProps p e) else (i, p)) (nodes s)\<rparr>
      else s\<lparr>nodes := nodes s @ [(nextId s,
                 setProps \<lparr>name = [], entityType = [], observations = [], entityID = Some (name e)\<rparr> e)],
             nextId := Suc (nextId s)\<rparr>)"

text \<open>
  \<^verbatim>\<open>MATCH (from:Memory),(to:Memory) WHERE from.entityID = relation.from AND to.entityID = relation.to
  MERGE (from)-[r:Memory {relationType:relation.relationType}]->(to)\<close>.
  A comparison with a missing value matches no node, so the relation is skipped; a
  \<^verbatim>\<open>MERGE\<close> on a missing \<^verbatim>\<open>relationType\<close> is rejected by the store.
\<close>

definition mergeRelation :: "relation \<Rightarrow> db \<Rightarrow> js_error + db" where
  "mergeRelation r s =
     (case (from_name r, to_name r) of
        (Some f, Some t) \<Rightarrow>
          (let pairs = [(i, j). (i, p) \<leftarrow> nodes s, entityID p = Some f,
                                (j, q) \<leftarrow> nodes s, entityID q = Some t]
           in if pairs = [] then Inr s
              else (case relationType r of
                      None \<Rightarrow> Inl (StoreError ''Neo.ClientError.Statement.SemanticError'')
                    | Some ty \<Rightarrow>
                        Inr (s\<lparr>edges := fold (\<lambda>(i, j) es. if (i, j, ty) \<in> set es then es else es @ [(i, j, ty)])
                                              pairs (edges s)\<rparr>)))
      | _ \<Rightarrow> Inr s)"

fun mergeRelations :: "relation list \<Rightarrow> db \<Rightarrow> js_error + db" where
  "mergeRelations [] s = Inr s"
| "mergeRelations (r # rs) s =
     (case mergeRelation r s of Inl e \<Rightarrow> Inl e | Inr s' \<Rightarrow> mergeRelations rs s')"

text \<open>The two statements of \<^verbatim>\<open>saveGraph\<close>, in one transaction.\<close>

definition writeGraph :: "graph \<Rightarrow> db \<Rightarrow> js_error + db" where
  "writeGraph g s = mergeRelations (relations g) (fold mergeEntity (entities g) s)"

text \<open>\<^verbatim>\<open>MATCH (entity:Memory) WHERE entity.name IN $entityNames DETACH DELETE entity\<close>\<close>

definition detachDelete :: "string list \<Rightarrow> db \<Rightarrow> db" where
  "detachDelete names s =
     (let dead = [i. (i, p) \<leftarrow> nodes s, name p \<in> set names]
      in s\<lparr>nodes := filter (\<lambda>(i, p). name p \<notin> set names) (nodes s),
           edges := filter (\<lambda>(a, b, ty). a \<notin> set dead \<and> b \<notin> set dead) (edges s)\<rparr>)"

text \<open>
  What a statement given to \<^verbatim>\<open>executeCypherQuery\<close> does. The two statements of the
  token gate are fixed texts with the name bound to \<^verbatim>\<open>$name\<close>:
  \<^verbatim>\<open>CREATE (s:SecurityNode {name: $name, ...}) RETURN s\<close> and
  \<^verbatim>\<open>MATCH (s:SecurityNode {name: $name}) DELETE s RETURN count(*) as nodesDeleted\<close>.
  The rows are the records after the normalisation of the driver's types.
\<close>

definition runCypher :: "engine \<Rightarrow> cypher \<Rightarrow> bool \<Rightarrow> db \<Rightarrow> db \<times> json list" where
  "runCypher eng q isWrite s =
     (case q of
        CreateSecurityNode n \<Rightarrow>
          (s\<lparr>securityNodes := securityNodes s @ [n]\<rparr>,
           [JObj [(''s'', JObj [(''name'', JStr n), (''_labels'', JArr [JStr ''SecurityNode''])])]])
      | RemoveSecurityNode n \<Rightarrow>
          (s\<lparr>securityNodes := filter (\<lambda>m. m \<noteq> n) (securityNodes s)\<rparr>,
           [JObj [(''nodesDeleted'', JNum (of_nat (length (filter (\<lambda>m. m = n) (securityNodes s)))))]])
      | Text t p \<Rightarrow> eng q isWrite s
      | Generated t subj structure \<Rightarrow> eng q isWrite s)"

section \<open>The graph store adapter (neo4j-memory.js)\<close>

definition loadGraph :: "graph prog" where
  "loadGraph w0 =
     (let w1 = session w0;
          (f, w2) = takeFault w1;
          r = (case f of Some code \<Rightarrow> Inl (StoreError code) | None \<Rightarrow> Inr (readGraph (store w2)))
      in (r, close w2))"

text \<open>\<^verbatim>\<open>saveGraph\<close> opens a session and returns the promise of \<^verbatim>\<open>executeWrite\<close>.\<close>

definition saveGraph :: "graph \<Rightarrow> unit prog" where
  "saveGraph g w0 =
     (let w1 = session w0;
          (f, w2) = takeFault w1
      in case f of
           Some code \<Rightarrow> (Inl (StoreError code), w2)
         | None \<Rightarrow>
             (case writeGraph g (store w2) of
                Inl e \<Rightarrow> (Inl e, w2)
              | Inr s' \<Rightarrow> (Inr (), w2\<lparr>store := s'\<rparr>)))"

definition createEntities :: "entity list \<Rightarrow> entity list prog" where
  "createEntities es =
     bind loadGraph (\<lambda>g.
       let newEntities = filter (\<lambda>e. \<not> (\<exists>x \<in> set (entities g). name x = name e)) es
       in bind (saveGraph (g\<lparr>entities := entities g @ newEntities\<rparr>)) (\<lambda>u. ret newEntities))"

record observation_request =
  entityName :: string
  contents :: "string list"

text \<open>
  One step of the \<^verbatim>\<open>map\<close> in \<^verbatim>\<open>addObservations\<close>: the first entity with the name is
  found and its list extended in place; \<open>None\<close> when there is no such entity.
\<close>

fun pushObservations :: "string \<Rightarrow> string list \<Rightarrow> entity list \<Rightarrow> (entity list \<times> string list) option" where
  "pushObservations n cs [] = None"
| "pushObservations n cs (e # es) =
     (if name e = n
      then (let newObservations = filter (\<lambda>c. c \<notin> set (observations e)) cs
            in Some (e\<lparr>observations := observations e @ newObservations\<rparr> # es, newObservations))
      else (case pushObservations n cs es of
              None \<Rightarrow> None
            | Some (es', added) \<Rightarrow> Some (e # es', added)))"

fun addAll :: "observation_request list \<Rightarrow> entity list \<Rightarrow> js_error + (entity list \<times> (string \<times> string list) list)" where
  "addAll [] es = Inr (es, [])"
| "addAll (req # os) es =
     (case pushObservations (entityName req) (contents req) es of
        None \<Rightarrow> Inl (NotFound (entityName req))
      | Some (es', added) \<Rightarrow>
          (case addAll os es' of
             Inl e \<Rightarrow> Inl e
           | Inr (es'', results) \<Rightarrow> Inr (es'', (entityName req, added) # results)))"

definition addObservations :: "observation_request list \<Rightarrow> (string \<times> string list) list prog" where
  "addObservations os =
     bind loadGraph (\<lambda>g.
       case addAll os (entities g) of
         Inl e \<Rightarrow> throw e
       | Inr (es, results) \<Rightarrow> bind (saveGraph (g\<lparr>entities := es\<rparr>)) (\<lambda>u. ret results))"

definition createRelations :: "relation list \<Rightarrow> relation list prog" where
  "createRelations rs =
     bind loadGraph (\<lambda>g.
       let newRelations = filter (\<lambda>r. \<not> (\<exists>x \<in> set (relations g).
              from_name x = from_name r \<and> to_name x = to_name r \<and> relationType x = relationType r)) rs
       in bind (saveGraph (g\<lparr>relations := relations g @ newRelations\<rparr>)) (\<lambda>u. ret newRelations))"

text \<open>
  The invariant on observations, and sequences of the two calls that add them. A call is
  repeat-free when no list of strings it carries repeats a string.
\<close>

definition noDuplicateObservations :: "db \<Rightarrow> bool" where
  "noDuplicateObservations s = (\<forall>(i, p) \<in> set (nodes s). distinct (observations p))"

datatype adapter_call =
    CreateEntities "entity list"
  | AddObservations "observation_request list"

fun repeatFree :: "adapter_call \<Rightarrow> bool" where
  "repeatFree (CreateEntities es) = (\<forall>e \<in> set es. distinct (observations e))"
| "repeatFree (AddObservations os) = (\<forall>r \<in> set os. distinct (contents r))"

fun perform :: "adapter_call \<Rightarrow> world \<Rightarrow> world" where
  "perform (CreateEntities es) w = snd (createEntities es w)"
| "perform (AddObservations os) w = snd (addObservations os w)"

definition deleteEntities :: "string list \<Rightarrow> unit prog" where
  "deleteEntities entityNames w0 =
     (if entityNames = [] then (Inr (), w0)
      else (let w1 = session w0;
                (f, w2) = takeFault w1;
                (r, w3) = (case f of
                             Some code \<Rightarrow> (Inl (StoreError code), w2)
                           | None \<Rightarrow> (Inr (), w2\<lparr>store := detachDelete entityNames (store w2)\<rparr>))
            in (r, close w3)))"

definition sameRelation :: "relation \<Rightarrow> relation \<Rightarrow> bool" where
  "sameRelation r d = (from_name r = from_name d \<and> to_name r = to_name d \<and> relationType r = relationType d)"

definition deleteRelations :: "relation list \<Rightarrow> unit prog" where
  "deleteRelations rs =
     bind loadGraph (\<lambda>g.
       saveGraph (g\<lparr>relations := filter (\<lambda>r. \<not> (\<exists>d \<in> set rs. sameRelation r d)) (relations g)\<rparr>))"

text \<open>
  \<^verbatim>\<open>toLowerCase\<close> and \<^verbatim>\<open>includes\<close> on strings. Among the code units below 256
  the upper-case letters are A to Z and 0xC0 to 0xDE without the multiplication sign 0xD7;
  each has its lower-case form 32 above it.
\<close>

definition toLowerCase :: "string \<Rightarrow> string" where
  "toLowerCase s = map (\<lambda>c. let n = (of_char c :: nat) in
      if (65 \<le> n \<and> n \<le> 90) \<or> (192 \<le> n \<and> n \<le> 222 \<and> n \<noteq> 215) then char_of (n + 32) else c) s"

definition includesStr :: "string \<Rightarrow> string \<Rightarrow> bool" where
  "includesStr s sub = (\<exists>i \<in> set [0..<Suc (length s)]. take (length sub) (drop i s) = sub)"

definition searchMatch :: "string \<Rightarrow> entity \<Rightarrow> bool" where
  "searchMatch q e =
     (includesStr (toLowerCase q) (toLowerCase (name e)) \<or>
      includesStr (toLowerCase q) (toLowerCase (entityType e)) \<or>
      (\<exists>ob \<in> set (observations e). includesStr (toLowerCase ob) (toLowerCase q)))"

text \<open>
  The match as the specification words it: some field among the name, the type and the
  observations matches the query in either containment direction.
\<close>

definition specSearchMatch :: "string \<Rightarrow> entity \<Rightarrow> bool" where
  "specSearchMatch q e =
     (\<exists>f \<in> set (name e # entityType e # observations e).
        includesStr (toLowerCase q) (toLowerCase f) \<or> includesStr (toLowerCase f) (toLowerCase q))"

definition hasName :: "entity list \<Rightarrow> string option \<Rightarrow> bool" where
  "hasName es v = (case v of None \<Rightarrow> False | Some n \<Rightarrow> n \<in> set (map name es))"

definition searchNodes :: "string \<Rightarrow> graph prog" where
  "searchNodes q =
     bind loadGraph (\<lambda>g.
       let filteredEntities = filter (searchMatch q) (entities g);
           filteredRelations = filter (\<lambda>r. hasName filteredEntities (from_name r) \<and>
                                              hasName filteredEntities (to_name r)) (relations g)
       in ret \<lparr>entities = filteredEntities, relations = filteredRelations\<rparr>)"

text \<open>
  \<^verbatim>\<open>executeCypherQuery\<close>: the session is closed in a \<^verbatim>\<open>finally\<close> block, an error of the
  store is rethrown.
\<close>

definition executeCypherQuery :: "engine \<Rightarrow> cypher \<Rightarrow> bool \<Rightarrow> json list prog" where
  "executeCypherQuery eng q isWrite w0 =
     (let w1 = session w0;
          (f, w2) = takeFault w1;
          (r, w3) = (case f of
                       Some code \<Rightarrow> (Inl (StoreError code), w2\<lparr>trace := trace w2 @ [Executed q isWrite False]\<rparr>)
                     | None \<Rightarrow>
                         (let (s', rows) = runCypher eng q isWrite (store w2)
                          in (Inr rows, w2\<lparr>store := s', trace := trace w2 @ [Executed q isWrite True]\<rparr>)))
      in (r, close w3))"

definition createSecurityNode :: "engine \<Rightarrow> string \<Rightarrow> json list prog" where
  "createSecurityNode eng n = executeCypherQuery eng (CreateSecurityNode n) True"

definition removeSecurityNode :: "engine \<Rightarrow> string \<Rightarrow> json list prog" where
  "removeSecurityNode eng n = executeCypherQuery eng (RemoveSecurityNode n) True"

section \<open>The \<^verbatim>\<open>safe_cypher_query\<close> tool (request handler)\<close>

record env =
  NEO4J_UNSAFE_MEMORY_CYPHERS :: "string option"
  ALLOW_CYPHER_QUERY_USER_INSISTS :: "string option"

record cypher_args =
  query :: string
  securityNodeName :: "string option"
  params :: "json option"

datatype response =
    Refusal bool "string option" bool bool
  | QueryResponse "json list" nat string "string option"
  | ErrorResponse js_error

text \<open>\<^verbatim>\<open>args.params.force\<close>: reading a property of \<^verbatim>\<open>undefined\<close> or \<^verbatim>\<open>null\<close> throws.\<close>

definition paramsForce :: "json option \<Rightarrow> js_error + json option" where
  "paramsForce v = (case v of None \<Rightarrow> Inl TypeError | Some JNull \<Rightarrow> Inl TypeError
                    | Some j \<Rightarrow> Inr (getProp j ''force''))"

text \<open>\<^verbatim>\<open>args.params || {}\<close>\<close>

definition paramsOrEmpty :: "json option \<Rightarrow> json" where
  "paramsOrEmpty v = (case v of None \<Rightarrow> JObj [] | Some j \<Rightarrow> if truthy j then j else JObj [])"

definition tokenMissingMessage :: string where
  "tokenMissingMessage = ''The write operation did not affect any records. This could be because the security node was not found or has expired.''"

definition noRecordsMessage :: string where
  "noRecordsMessage = ''The write operation completed but did not affect any records.''"

definition safe_cypher_query :: "engine \<Rightarrow> env \<Rightarrow> cypher_args \<Rightarrow> world \<Rightarrow> response \<times> world" where
  "safe_cypher_query eng ev args w =
     (let token = (case securityNodeName args of None \<Rightarrow> None
                   | Some n \<Rightarrow> if n = [] then None else Some n);
          hasWriteOps = containsWriteOperations (query args);
          allowUnsafeQueries = (NEO4J_UNSAFE_MEMORY_CYPHERS ev = Some ''true'')
      in case (if ALLOW_CYPHER_QUERY_USER_INSISTS ev = Some ''true''
               then (case paramsForce (params args) of
                       Inl e \<Rightarrow> Inl e
                     | Inr v \<Rightarrow> Inr (v = Some (JStr ''true'')))
               else Inr False) of
           Inl e \<Rightarrow> (ErrorResponse e, w)
         | Inr user_insists \<Rightarrow>
             if hasWriteOps \<and> token = None \<and> \<not> allowUnsafeQueries \<and> \<not> user_insists
             then (Refusal hasWriteOps token allowUnsafeQueries user_insists, w)
             else (let preparedQuery =
                         (case token of
                            Some n \<Rightarrow> if hasWriteOps \<and> \<not> allowUnsafeQueries
                                      then wrapWithSecurityCheck (query args) n else query args
                          | None \<Rightarrow> query args);
                       isWrite = hasWriteOps
                   in case executeCypherQuery eng (Text preparedQuery (paramsOrEmpty (params args))) isWrite w of
                        (Inl e, w') \<Rightarrow> (ErrorResponse e, w')
                      | (Inr result, w') \<Rightarrow>
                          (QueryResponse result (length result)
                             (if hasWriteOps then ''write'' else ''read'')
                             (if isWrite \<and> result = []
                              then Some (if token \<noteq> None \<and> \<not> allowUnsafeQueries
                                         then tokenMissingMessage else noRecordsMessage)
                              else None), w')))"

text \<open>
  The user insists: the process allows it and the call carries \<^verbatim>\<open>force\<close> equal to the
  string \<^verbatim>\<open>'true'\<close>.
\<close>

definition userInsists :: "env \<Rightarrow> cypher_args \<Rightarrow> bool" where
  "userInsists ev args =
     (ALLOW_CYPHER_QUERY_USER_INSISTS ev = Some ''true'' \<and>
      (case params args of None \<Rightarrow> False | Some j \<Rightarrow> getProp j ''force'' = Some (JStr ''true'')))"

definition noToken :: "cypher_args \<Rightarrow> bool" where
  "noToken args = (securityNodeName args = None \<or> securityNodeName args = Some [])"

section \<open>The ontology orchestrator (tools/base-ontology.js)\<close>

record ontology_args =
  subject :: "string option"
  parent :: "string option"
  force_it :: bool

datatype outcome =
    MissingSubject
  | ParentMissing
  | AlreadyRepresented
  | Created json "json list list"
  | Failed js_error

definition callLLM :: "llm_response prog" where
  "callLLM w =
     (let w1 = w\<lparr>trace := trace w @ [CalledLLM]\<rparr>
      in case replies w1 of
           [] \<Rightarrow> (Inl LLMError, w1)
         | None # rs \<Rightarrow> (Inl LLMError, w1\<lparr>replies := rs\<rparr>)
         | Some r # rs \<Rightarrow> (Inr r, w1\<lparr>replies := rs\<rparr>))"

text \<open>The fixed statements of the workflow (white space normalised).\<close>

definition parentCheckQuery :: string where
  "parentCheckQuery = ''MATCH (p:BaseOntology {subject: $parentName}) RETURN p''"

definition baseOntologiesQuery :: string where
  "baseOntologiesQuery = ''MATCH (bo:BaseOntology) RETURN bo''"

definition otherOntologiesQuery :: string where
  "otherOntologiesQuery = ''MATCH (bo:BaseOntology) WHERE bo.subject <> $subject RETURN bo''"

definition relationshipQuery :: string where
  "relationshipQuery = ''MATCH (security:SecurityNode {name: $securityNodeName}) WITH security WHERE security IS NOT NULL MATCH (child:BaseOntology {subject: $subject}) MATCH (parentBo:BaseOntology {subject: $parentName}) MERGE (parentBo)-[:PARENT_OF]->(child) MERGE (child)-[:CHILD_OF]->(parentBo)''"

text \<open>\<^verbatim>\<open>parent.replace(/^\(BO\): /, '')\<close>\<close>

definition normalizeParent :: "string \<Rightarrow> string" where
  "normalizeParent p = (if take 6 p = ''(BO): '' then drop 6 p else p)"

text \<open>\<^verbatim>\<open>v?.key\<close>\<close>

definition optProp :: "json option \<Rightarrow> string \<Rightarrow> json option" where
  "optProp v k = (case v of None \<Rightarrow> None | Some j \<Rightarrow> getProp j k)"

text \<open>
  \<^verbatim>\<open>checkBaseOntologyExists\<close>. Of the object it returns only \<^verbatim>\<open>exists\<close> is kept, as
  its truth value; \<^verbatim>\<open>representedBy.includes\<close> is called once for every existing
  ontology and throws when the value has no such method.
\<close>

definition hasIncludes :: "json \<Rightarrow> bool" where
  "hasIncludes j = (case j of JArr xs \<Rightarrow> True | JStr s \<Rightarrow> True | _ \<Rightarrow> False)"

definition checkBaseOntologyExists :: "engine \<Rightarrow> string \<Rightarrow> bool prog" where
  "checkBaseOntologyExists eng subj =
     bind (executeCypherQuery eng (Text baseOntologiesQuery (JObj [])) False) (\<lambda>existingOntologies.
     bind callLLM (\<lambda>llmResponse.
       let result = (case json_of llmResponse of
                       None \<Rightarrow> JObj [(''isRepresented'', JBool False)]
                     | Some j \<Rightarrow> if truthy j then j else JObj [(''isRepresented'', JBool False)])
       in case getProp result ''representedBy'' of
            None \<Rightarrow> ret (truthyOpt (getProp result ''isRepresented''))
          | Some rb \<Rightarrow>
              if truthy rb \<and> existingOntologies \<noteq> [] \<and> \<not> hasIncludes rb
              then throw TypeError
              else ret (truthyOpt (getProp result ''isRepresented''))))"

text \<open>
  The text generator answers that the subject is represented: its JSON answer has a
  truthy \<^verbatim>\<open>isRepresented\<close>, and names the representing ontologies in an array or a
  string, or not at all.
\<close>

definition answersRepresented :: "llm_response \<Rightarrow> bool" where
  "answersRepresented r =
     (case json_of r of
        None \<Rightarrow> False
      | Some j \<Rightarrow>
          truthyOpt (getProp j ''isRepresented'') \<and>
          (case getProp j ''representedBy'' of
             None \<Rightarrow> True
           | Some rb \<Rightarrow> \<not> truthy rb \<or> hasIncludes rb))"

text \<open>What the workflow logs for the check of the parent: nothing when no parent is given.\<close>

definition parentCheckStatement :: "string \<Rightarrow> cypher" where
  "parentCheckStatement p = Text parentCheckQuery (JObj [(''parentName'', JStr (normalizeParent p))])"

definition parentGiven :: "ontology_args \<Rightarrow> string option" where
  "parentGiven args = (case parent args of None \<Rightarrow> None | Some p \<Rightarrow> if p = [] then None else Some p)"

definition createDefaultOntology :: "string \<Rightarrow> json" where
  "createDefaultOntology subj =
     JObj [(''name'', JStr (''(BO): '' @ subj)),
           (''description'', JStr (''Base Ontology for '' @ subj)),
           (''entities'', JArr [
              JObj [(''name'', JStr ''(OE): Concept''), (''type'', JStr ''EntityType''),
                    (''description'', JStr (''A concept within the '' @ subj @ '' domain''))],
              JObj [(''name'', JStr ''(OE): Property''), (''type'', JStr ''EntityType''),
                    (''description'', JStr (''A property in the '' @ subj @ '' domain''))],
              JObj [(''name'', JStr ''(OE): Relationship''), (''type'', JStr ''EntityType''),
                    (''description'', JStr (''A relationship in the '' @ subj @ '' domain''))]]),
           (''relationships'', JArr []),
           (''hierarchy'', JArr [])]"

text \<open>
  \<^verbatim>\<open>parsedCypherResponse?.queries || cypherResponse.json?.queries || []\<close>, where the parsed
  response is the \<^verbatim>\<open>json\<close> of the answer or, failing that, the JSON of its fenced
  block (\<open>fenced\<close>: the value of the block when there is one and it parses).
\<close>

definition queriesToExecute :: "llm_response \<Rightarrow> json" where
  "queriesToExecute r =
     (let parsed = (if \<not> truthyOpt (json_of r) \<and> text_of r \<noteq> []
                    then (case fenced r of None \<Rightarrow> json_of r | Some f \<Rightarrow> Some f)
                    else json_of r);
          first = (case parsed of None \<Rightarrow> None | Some JNull \<Rightarrow> None | Some j \<Rightarrow> getProp j ''queries'');
          second = (case json_of r of None \<Rightarrow> None | Some JNull \<Rightarrow> None | Some j \<Rightarrow> getProp j ''queries'')
      in case first of
           Some v \<Rightarrow> if truthy v then v
                     else (case second of Some u \<Rightarrow> if truthy u then u else JArr [] | None \<Rightarrow> JArr [])
         | None \<Rightarrow> (case second of Some u \<Rightarrow> if truthy u then u else JArr [] | None \<Rightarrow> JArr []))"

text \<open>
  The loop over the generated statements: each is run as a write, ungated by the
  orchestrator itself; the first failure ends the loop. Reading \<^verbatim>\<open>queryObj.description\<close>
  throws when the element is null.
\<close>

fun executeAll :: "engine \<Rightarrow> string \<Rightarrow> json \<Rightarrow> json list \<Rightarrow> json list list prog" where
  "executeAll eng subj structure [] = ret []"
| "executeAll eng subj structure (x # xs) =
     (if x = JNull then throw TypeError
      else bind (executeCypherQuery eng (Generated (getProp x ''query'') subj structure) True) (\<lambda>result.
           bind (executeAll eng subj structure xs) (\<lambda>results. ret (result # results))))"

subsection \<open>The comparison \<^verbatim>\<open>c.confidence > 0.7\<close>\<close>

text \<open>
  The left operand is converted to a number as the language converts it: a string by the
  numeric literal it holds between white space (the empty string is 0), an array
  through the string that joins its elements, an object without an own \<^verbatim>\<open>toString\<close>
  to NaN. An object with an own \<^verbatim>\<open>toString\<close> has no primitive value and the conversion
  throws a TypeError.
\<close>

datatype jsnumber = NaN | Infinite bool | Finite rat

definition isStrWhiteSpace :: "char \<Rightarrow> bool" where
  "isStrWhiteSpace c = (let n = (of_char c :: nat) in (9 \<le> n \<and> n \<le> 13) \<or> n = 32 \<or> n = 160)"

definition trimString :: "string \<Rightarrow> string" where
  "trimString s = rev (dropWhile isStrWhiteSpace (rev (dropWhile isStrWhiteSpace s)))"

definition digitOf :: "char \<Rightarrow> nat option" where
  "digitOf c = (let n = (of_char c :: nat) in
      if 48 \<le> n \<and> n \<le> 57 then Some (n - 48)
      else if 97 \<le> n \<and> n \<le> 102 then Some (n - 87)
      else if 65 \<le> n \<and> n \<le> 70 then Some (n - 55)
      else None)"

definition isDigitIn :: "nat \<Rightarrow> char \<Rightarrow> bool" where
  "isDigitIn b c = (case digitOf c of None \<Rightarrow> False | Some v \<Rightarrow> v < b)"

definition digitsIn :: "nat \<Rightarrow> string \<Rightarrow> bool" where
  "digitsIn b ds = (ds \<noteq> [] \<and> list_all (isDigitIn b) ds)"

definition valueIn :: "nat \<Rightarrow> string \<Rightarrow> nat" where
  "valueIn b ds = foldl (\<lambda>a c. a * b + (case digitOf c of None \<Rightarrow> 0 | Some v \<Rightarrow> v)) 0 ds"

definition pow10 :: "int \<Rightarrow> rat" where
  "pow10 e = (if 0 \<le> e then 10 ^ nat e else 1 / 10 ^ nat (- e))"

text \<open>\<^verbatim>\<open>0x\<close>, \<^verbatim>\<open>0o\<close> and \<^verbatim>\<open>0b\<close> literals; they take no sign.\<close>

definition nonDecimalLiteral :: "string \<Rightarrow> nat option" where
  "nonDecimalLiteral t =
     (case t of
        c0 # c1 # ds \<Rightarrow>
          if c0 \<noteq> CHR ''0'' then None
          else if (c1 = CHR ''x'' \<or> c1 = CHR ''X'') \<and> digitsIn 16 ds then Some (valueIn 16 ds)
          else if (c1 = CHR ''o'' \<or> c1 = CHR ''O'') \<and> digitsIn 8 ds then Some (valueIn 8 ds)
          else if (c1 = CHR ''b'' \<or> c1 = CHR ''B'') \<and> digitsIn 2 ds then Some (valueIn 2 ds)
          else None
      | _ \<Rightarrow> None)"

text \<open>The exponent part: nothing, or \<^verbatim>\<open>e\<close> or \<^verbatim>\<open>E\<close>, an optional sign and digits.\<close>

definition exponentPart :: "string \<Rightarrow> int option" where
  "exponentPart r =
     (case r of
        [] \<Rightarrow> Some 0
      | c # ds \<Rightarrow>
          if c \<noteq> CHR ''e'' \<and> c \<noteq> CHR ''E'' then None
          else (case ds of
                  [] \<Rightarrow> None
                | d # es \<Rightarrow>
                    if d = CHR ''+'' then (if digitsIn 10 es then Some (int (valueIn 10 es)) else None)
                    else if d = CHR ''-'' then (if digitsIn 10 es then Some (- int (valueIn 10 es)) else None)
                    else if digitsIn 10 ds then Some (int (valueIn 10 ds)) else None))"

text \<open>
  An unsigned decimal literal: \<^verbatim>\<open>Infinity\<close>, or digits with an optional fraction and an
  optional exponent, with a digit before or after the point.
\<close>

definition unsignedDecimal :: "string \<Rightarrow> jsnumber" where
  "unsignedDecimal u =
     (if u = ''Infinity'' then Infinite True
      else (let ip = takeWhile (isDigitIn 10) u;
                r1 = dropWhile (isDigitIn 10) u;
                fp = (case r1 of [] \<Rightarrow> []
                      | c # r \<Rightarrow> if c = CHR ''.'' then takeWhile (isDigitIn 10) r else []);
                r2 = (case r1 of [] \<Rightarrow> []
                      | c # r \<Rightarrow> if c = CHR ''.'' then dropWhile (isDigitIn 10) r else r1)
            in if ip = [] \<and> fp = [] then NaN
               else (case exponentPart r2 of
                       None \<Rightarrow> NaN
                     | Some e \<Rightarrow> Finite (of_nat (valueIn 10 (ip @ fp)) * pow10 (e - int (length fp))))))"

definition negateNumber :: "jsnumber \<Rightarrow> jsnumber" where
  "negateNumber x = (case x of NaN \<Rightarrow> NaN | Infinite b \<Rightarrow> Infinite (\<not> b) | Finite r \<Rightarrow> Finite (- r))"

definition stringToNumber :: "string \<Rightarrow> jsnumber" where
  "stringToNumber s =
     (let t = trimString s
      in case t of
           [] \<Rightarrow> Finite 0
         | c # u \<Rightarrow>
             (case nonDecimalLiteral t of
                Some n \<Rightarrow> Finite (of_nat n)
              | None \<Rightarrow>
                  if c = CHR ''+'' then unsignedDecimal u
                  else if c = CHR ''-'' then negateNumber (unsignedDecimal u)
                  else unsignedDecimal t))"

text \<open>
  The string of a value throws when the value is an object with an own \<^verbatim>\<open>toString\<close>
  (no parsed value is callable), or an array with such an element.
\<close>

fun toStringThrows :: "json \<Rightarrow> bool" where
  "toStringThrows (JObj kvs) = (''toString'' \<in> set (map fst kvs))"
| "toStringThrows (JArr xs) = (\<exists>x \<in> set xs. toStringThrows x)"
| "toStringThrows _ = False"

text \<open>
  The number held by the string that an array joins from this one element: null joins as
  the empty string, a number as its own literal, a nested array as its own join; two or
  more elements join with a comma, which no literal has.
\<close>

fun joinedNumber :: "json \<Rightarrow> jsnumber" where
  "joinedNumber JNull = Finite 0"
| "joinedNumber (JBool b) = NaN"
| "joinedNumber (JNum r) = Finite r"
| "joinedNumber (JStr s) = stringToNumber s"
| "joinedNumber (JArr []) = Finite 0"
| "joinedNumber (JArr [x]) = joinedNumber x"
| "joinedNumber (JArr (x # y # zs)) = NaN"
| "joinedNumber (JObj kvs) = NaN"

text \<open>
  Both operands are doubles. The double nearest to a number is above the double of 0.7
  exactly when the number is above the midpoint between that double and the next one.
\<close>

definition abovePoint7 :: "jsnumber \<Rightarrow> bool" where
  "abovePoint7 x = (case x of NaN \<Rightarrow> False | Infinite b \<Rightarrow> b
                    | Finite r \<Rightarrow> r > 12610078956637389 / 18014398509481984)"

definition confidenceAbove :: "json option \<Rightarrow> js_error + bool" where
  "confidenceAbove v =
     (case v of
        None \<Rightarrow> Inr False
      | Some JNull \<Rightarrow> Inr False
      | Some (JBool b) \<Rightarrow> Inr b
      | Some (JNum r) \<Rightarrow> Inr (abovePoint7 (Finite r))
      | Some (JStr s) \<Rightarrow> Inr (abovePoint7 (stringToNumber s))
      | Some (JArr xs) \<Rightarrow> if toStringThrows (JArr xs) then Inl TypeError
                           else Inr (abovePoint7 (joinedNumber (JArr xs)))
      | Some (JObj kvs) \<Rightarrow> if toStringThrows (JObj kvs) then Inl TypeError else Inr False)"

text \<open>\<^verbatim>\<open>c => c.confidence > 0.7\<close>: reading the property of null throws.\<close>

definition highConfidence :: "json \<Rightarrow> js_error + bool" where
  "highConfidence c = (if c = JNull then Inl TypeError else confidenceAbove (getProp c ''confidence''))"

text \<open>\<^verbatim>\<open>connections.filter(c => c.confidence > 0.7)\<close>, element by element.\<close>

fun filterHighConfidence :: "json list \<Rightarrow> js_error + json list" where
  "filterHighConfidence [] = Inr []"
| "filterHighConfidence (c # cs) =
     (case highConfidence c of
        Inl e \<Rightarrow> Inl e
      | Inr high \<Rightarrow>
          (case filterHighConfidence cs of
             Inl e \<Rightarrow> Inl e
           | Inr rest \<Rightarrow> Inr (if high then c # rest else rest)))"

subsection \<open>The workflow\<close>

definition createOntologyConnections :: "engine \<Rightarrow> string \<Rightarrow> string \<Rightarrow> unit prog" where
  "createOntologyConnections eng subj token =
     tryCatch
       (bind (executeCypherQuery eng (Text otherOntologiesQuery (JObj [(''subject'', JStr subj)])) False)
          (\<lambda>existingOntologies.
         if existingOntologies = [] then ret ()
         else bind callLLM (\<lambda>connectionsResponse.
           let connections = (case optProp (json_of connectionsResponse) ''connections'' of
                                None \<Rightarrow> JArr []
                              | Some c \<Rightarrow> if truthy c then c else JArr [])
           in case connections of
                JArr cs \<Rightarrow>
                  (case filterHighConfidence cs of
                     Inl e \<Rightarrow> throw e
                   | Inr highConfidenceConnections \<Rightarrow>
                       if highConfidenceConnections = [] then ret ()
                       else bind callLLM (\<lambda>connectionsCypherResponse.
                              let connectionsQuery = text_of connectionsCypherResponse
                              in if connectionsQuery \<noteq> [] \<and> includesStr connectionsQuery ''MATCH''
                                    \<and> includesStr connectionsQuery ''CREATE''
                                 then bind (executeCypherQuery eng
                                              (Text connectionsQuery (JObj [(''subject'', JStr subj)])) True)
                                           (\<lambda>res. ret ())
                                 else ret ()))
              | _ \<Rightarrow> throw TypeError)))
       (\<lambda>e. ret ())"

definition createBaseOntology :: "engine \<Rightarrow> string \<Rightarrow> string option \<Rightarrow> string \<Rightarrow> (json \<times> json list list) prog" where
  "createBaseOntology eng subj par token =
     bind callLLM (\<lambda>ontologyResponse.
       let ontologyStructure = (case json_of ontologyResponse of
                                  None \<Rightarrow> createDefaultOntology subj
                                | Some j \<Rightarrow> if truthy j then j else createDefaultOntology subj)
       in bind callLLM (\<lambda>cypherResponse.
               bind (case queriesToExecute cypherResponse of
                       JArr xs \<Rightarrow> executeAll eng subj ontologyStructure xs
                     | JStr s \<Rightarrow> executeAll eng subj ontologyStructure (map (\<lambda>c. JStr [c]) s)
                     | _ \<Rightarrow> throw TypeError) (\<lambda>results.
               bind (case par of
                       None \<Rightarrow> ret results
                     | Some p \<Rightarrow>
                         if p = [] then ret results
                         else bind (executeCypherQuery eng
                                      (Text relationshipQuery
                                         (JObj [(''securityNodeName'', JStr token), (''subject'', JStr subj),
                                                (''parentName'', JStr (normalizeParent p))])) True)
                                   (\<lambda>relationshipResult. ret (results @ [relationshipResult]))) (\<lambda>results'.
               bind (createOntologyConnections eng subj token) (\<lambda>u.
               ret (ontologyStructure, results'))))))"

text \<open>
  \<^verbatim>\<open>handleCreateBaseOntology\<close>. The name of the security node is the value that
  \<^verbatim>\<open>generateSecurityNodeName()\<close> returned. The node is created before the inner
  \<^verbatim>\<open>try\<close>, whose \<^verbatim>\<open>finally\<close> block removes it; the outer \<^verbatim>\<open>catch\<close> turns every
  error into a result.
\<close>

definition handleCreateBaseOntology :: "engine \<Rightarrow> string \<Rightarrow> ontology_args \<Rightarrow> world \<Rightarrow> outcome \<times> world" where
  "handleCreateBaseOntology eng token args w =
     (case subject args of
        None \<Rightarrow> (MissingSubject, w)
      | Some subj \<Rightarrow>
          if subj = [] then (MissingSubject, w)
          else (case
                  bind (case parent args of
                          None \<Rightarrow> ret True
                        | Some p \<Rightarrow>
                            if p = [] then ret True
                            else bind (executeCypherQuery eng
                                         (Text parentCheckQuery (JObj [(''parentName'', JStr (normalizeParent p))])) False)
                                      (\<lambda>parentResult. ret (parentResult \<noteq> []))) (\<lambda>parentFound.
                  if \<not> parentFound then ret ParentMissing
                  else bind (createSecurityNode eng token) (\<lambda>created.
                         tryFinally
                           (bind (checkBaseOntologyExists eng subj) (\<lambda>exists.
                              if exists \<and> \<not> force_it args then ret AlreadyRepresented
                              else bind (createBaseOntology eng subj (parent args) token)
                                        (\<lambda>(structure, results). ret (Created structure results))))
                           (bind (removeSecurityNode eng token) (\<lambda>removed. ret ())))) w
                of (Inl e, w') \<Rightarrow> (Failed e, w')
                 | (Inr r, w') \<Rightarrow> (r, w')))"

section \<open>Concrete inputs\<close>

text \<open>
  An empty database behind a driver with no open session, no store failure and no answer
  of the text generator pending; and an engine for free-form Cypher that changes nothing
  and returns no row.
\<close>

definition emptyDb :: db where
  "emptyDb = \<lparr>nodes = [], edges = [], securityNodes = [], nextId = 0, otherData = JNull\<rparr>"

definition emptyWorld :: world where
  "emptyWorld = \<lparr>store = emptyDb, openSessions = 0, faults = [], replies = [], trace = []\<rparr>"

definition idleEngine :: engine where
  "idleEngine q isWrite s = (s, [])"

definition entityA :: entity where
  "entityA = \<lparr>name = ''A'', entityType = ''person'', observations = [], entityID = None\<rparr>"

definition entityB :: entity where
  "entityB = \<lparr>name = ''B'', entityType = ''person'', observations = [], entityID = None\<rparr>"

definition likesAB :: relation where
  "likesAB = \<lparr>from_name = Some ''A'', to_name = Some ''B'', relationType = Some ''LIKES''\<rparr>"

text \<open>The world after \<^verbatim>\<open>createEntities([A, B])\<close> and \<^verbatim>\<open>createRelations([A-LIKES-B])\<close>.\<close>

definition worldAB :: world where
  "worldAB = snd (createRelations [likesAB] (snd (createEntities [entityA, entityB] emptyWorld)))"

definition storedA :: entity where
  "storedA = entityA\<lparr>entityID := Some ''A''\<rparr>"

definition storedB :: entity where
  "storedB = entityB\<lparr>entityID := Some ''B''\<rparr>"

definition entityAlice :: entity where
  "entityAlice = \<lparr>name = ''Alice'', entityType = ''person'', observations = [''likes tea''], entityID = None\<rparr>"

text \<open>The world after \<^verbatim>\<open>createEntities([Alice])\<close>, and Alice as stored.\<close>

definition worldAlice :: world where
  "worldAlice = snd (createEntities [entityAlice] emptyWorld)"

definition storedAlice :: entity where
  "storedAlice = entityAlice\<lparr>entityID := Some ''Alice''\<rparr>"

text \<open>The world after \<^verbatim>\<open>createEntities([A])\<close>.\<close>

definition worldA :: world where
  "worldA = snd (createEntities [entityA] emptyWorld)"

text \<open>
  A request for the subject Physics, not forced, in a world where the text generator
  will answer that the subject is already represented.
\<close>

definition physicsArgs :: ontology_args where
  "physicsArgs = \<lparr>subject = Some ''Physics'', parent = None, force_it = False\<rparr>"

definition representedReply :: llm_response where
  "representedReply = \<lparr>text_of = ''{\"isRepresented\": true}'',
     json_of = Some (JObj [(''isRepresented'', JBool True)]), fenced = None\<rparr>"

definition worldPhysicsKnown :: world where
  "worldPhysicsKnown = emptyWorld\<lparr>replies := [Some representedReply]\<rparr>"

text \<open>
  The same request with the parent \<^verbatim>\<open>(BO): Science\<close>, and an engine that changes nothing
  and answers every statement with one row.
\<close>

definition physicsUnderScience :: ontology_args where
  "physicsUnderScience = \<lparr>subject = Some ''Physics'', parent = Some ''(BO): Science'', force_it = False\<rparr>"

definition oneRowEngine :: engine where
  "oneRowEngine q isWrite s = (s, [JObj [(''bo'', JObj [(''subject'', JStr ''Science'')])]])"

text \<open>
  A request in a world where the subject is new, the text generator proposes one write
  statement, and the store fails on that statement.
\<close>

definition plainReply :: llm_response where
  "plainReply = \<lparr>text_of = ''no JSON here'', json_of = None, fenced = None\<rparr>"

definition statementsReply :: llm_response where
  "statementsReply = \<lparr>text_of = ''{\"queries\": [{\"query\": \"CREATE (n:BaseOntology)\"}]}'',
     json_of = Some (JObj [(''queries'', JArr [JObj [(''query'', JStr ''CREATE (n:BaseOntology)'')]])]),
     fenced = None\<rparr>"

definition worldStatementFails :: world where
  "worldStatementFails = emptyWorld\<lparr>replies := [Some plainReply, Some plainReply, Some statementsReply],
     faults := [None, None, Some ''Neo.ClientError.Statement.SyntaxError'']\<rparr>"

text \<open>
  A request in a world where the store accepts the creation of the security node and
  fails on every call after it.
\<close>

definition worldStoreGoesDown :: world where
  "worldStoreGoesDown = emptyWorld\<lparr>faults := [None, Some ''ServiceUnavailable'', Some ''ServiceUnavailable'']\<rparr>"

section \<open>Properties of the classifier\<close>

lemma of_char_char_of_small: "n < 256 \<Longrightarrow> of_char (char_of n) = (n::nat)"
  by simp

lemma isWordChar_canonicalize: "isWordChar (canonicalize c) = isWordChar c"
proof -
  have "(of_char c :: nat) < 256" by simp
  then show ?thesis
    unfolding isWordChar_def canonicalize_def Let_def
    by (auto simp: of_char_char_of_small)
qed

lemma writeOperators_shape:
  "w \<in> set writeOperators \<Longrightarrow> w \<noteq> [] \<and> (\<forall>c \<in> set w. isWordChar c) \<and> map canonicalize w = w"
  unfolding writeOperators_def by (auto simp: isWordChar_def canonicalize_def)

lemma keyword_image_word:
  assumes "map canonicalize m \<in> set writeOperators"
  shows "m \<noteq> [] \<and> (\<forall>c \<in> set m. isWordChar c)"
proof -
  from writeOperators_shape[OF assms]
  have ne: "map canonicalize m \<noteq> []" and wc: "\<forall>c \<in> set (map canonicalize m). isWordChar c"
    by blast+
  from ne have "m \<noteq> []" by simp
  moreover from wc have "\<forall>c \<in> set m. isWordChar c"
    by (simp add: isWordChar_canonicalize)
  ultimately show ?thesis by blast
qed


lemma wordAt_index: "i < length q \<Longrightarrow> wordAt q (int i) = isWordChar (q ! i)"
  by (simp add: wordAt_def)


lemma matchAt_imp_standalone:
  assumes "matchAt q i"
  shows "standaloneWriteKeyword q"
proof -
  from assms obtain w where w: "w \<in> set writeOperators"
    and m: "matchesAt w q i"
    and b1: "wordBoundary q i" and b2: "wordBoundary q (i + length w)"
    unfolding matchAt_def by blast
  define pre where "pre = take i q"
  define mid where "mid = take (length w) (drop i q)"
  define post where "post = drop (i + length w) q"
  from m have len: "i + length w \<le> length q"
    and canon: "map canonicalize mid = map canonicalize w"
    unfolding matchesAt_def mid_def by simp_all
  from writeOperators_shape[OF w] have wne: "w \<noteq> []" and wfix: "map canonicalize w = w"
    by simp_all
  have "mid @ drop (length w) (drop i q) = drop i q"
    unfolding mid_def by (rule append_take_drop_id)
  moreover have "drop (length w) (drop i q) = post"
    unfolding post_def by (simp add: add.commute)
  ultimately have "drop i q = mid @ post" by simp
  then have "take i q @ drop i q = pre @ mid @ post"
    unfolding pre_def by simp
  then have split: "q = pre @ mid @ post" by simp
  have kw: "map canonicalize mid \<in> set writeOperators"
    using canon wfix w by simp
  from keyword_image_word[OF kw] have midne: "mid \<noteq> []" and midw: "\<forall>c \<in> set mid. isWordChar c"
    by simp_all
  have lmid: "length mid = length w" unfolding mid_def using len by simp
  have lpre: "length pre = i" unfolding pre_def using len by simp
  have ilt: "i < length q" using len wne by (cases w) auto
  have "(pre @ mid @ post) ! i = hd mid"
    using lpre midne by (cases mid) (auto simp: nth_append)
  with split have qi: "q ! i = hd mid" by simp
  have "wordAt q (int i)" using ilt qi midw midne by (simp add: wordAt_index)
  with b1 have nb: "\<not> wordAt q (int i - 1)" unfolding wordBoundary_def by simp
  have left: "pre = [] \<or> \<not> isWordChar (last pre)"
  proof (cases "i = 0")
    case True then show ?thesis using pre_def by simp
  next
    case False
    have "i - 1 < length q" using ilt by simp
    then have "wordAt q (int (i - 1)) = isWordChar (q ! (i - 1))"
      by (rule wordAt_index)
    moreover have "int (i - 1) = int i - 1" using False by simp
    ultimately have "wordAt q (int i - 1) = isWordChar (q ! (i - 1))"
      by (simp only:)
    moreover have "last pre = q ! (i - 1)"
    proof -
      have "pre \<noteq> []" using False lpre by auto
      then have "last pre = pre ! (length pre - 1)" by (rule last_conv_nth)
      also have "\<dots> = take i q ! (i - 1)" using lpre by (simp add: pre_def)
      also have "\<dots> = q ! (i - 1)" using False by simp
      finally show ?thesis .
    qed
    ultimately show ?thesis using nb by simp
  qed
  have e1: "int (i + length w - 1) = int (i + length w) - 1" using wne by (cases w) auto
  have "q ! (i + length w - 1) = last mid"
  proof -
    have "last mid = mid ! (length w - 1)" using midne lmid by (simp add: last_conv_nth)
    also have "\<dots> = (pre @ mid @ post) ! (i + (length w - 1))"
      using lpre lmid wne by (simp add: nth_append)
    finally show ?thesis using split wne by (cases w) auto
  qed
  moreover have "i + length w - 1 < length q" using len wne by (cases w) auto
  then have "wordAt q (int (i + length w - 1)) = isWordChar (q ! (i + length w - 1))"
    by (rule wordAt_index)
  moreover have "isWordChar (last mid)" using midw midne by simp
  ultimately have "wordAt q (int (i + length w - 1))" by (simp only:)
  then have "wordAt q (int (i + length w) - 1)" by (simp only: e1)
  with b2 have ne: "\<not> wordAt q (int (i + length w))" unfolding wordBoundary_def by simp
  have right: "post = [] \<or> \<not> isWordChar (hd post)"
  proof (cases "i + length w = length q")
    case True then show ?thesis unfolding post_def by simp
  next
    case False
    with len have lt: "i + length w < length q" by simp
    then have "hd post = q ! (i + length w)" unfolding post_def by (simp add: hd_drop_conv_nth)
    moreover from lt have "wordAt q (int (i + length w)) = isWordChar (q ! (i + length w))"
      by (rule wordAt_index)
    ultimately show ?thesis using ne by (simp only:) simp
  qed
  show ?thesis unfolding standaloneWriteKeyword_def
    using split kw left right by blast
qed


lemma wordAt_prev:
  "wordAt (pre @ rest) (int (length pre) - 1) = (pre \<noteq> [] \<and> isWordChar (last pre))"
proof (cases "pre = []")
  case True
  then show ?thesis by (simp add: wordAt_def)
next
  case False
  then have "nat (int (length pre) - 1) = length pre - 1" by simp
  moreover have "(pre @ rest) ! (length pre - 1) = last pre"
    using False by (simp add: nth_append last_conv_nth)
  moreover have "int (length pre) - 1 \<noteq> -1" using False by simp
  moreover have "int (length pre) - 1 \<noteq> int (length (pre @ rest))" by simp
  ultimately show ?thesis using False unfolding wordAt_def by (simp only:) simp
qed

lemma wordAt_next:
  "wordAt (pre @ rest) (int (length pre)) = (rest \<noteq> [] \<and> isWordChar (hd rest))"
proof (cases "rest = []")
  case True
  then show ?thesis by (simp add: wordAt_def)
next
  case False
  then have "(pre @ rest) ! (length pre) = hd rest"
    by (cases rest) simp_all
  then show ?thesis using False by (simp add: wordAt_def)
qed

lemma standalone_imp_contains:
  assumes "standaloneWriteKeyword q"
  shows "containsWriteOperations q"
proof -
  from assms obtain pre mid post where split: "q = pre @ mid @ post"
    and kw: "map canonicalize mid \<in> set writeOperators"
    and left: "pre = [] \<or> \<not> isWordChar (last pre)"
    and right: "post = [] \<or> \<not> isWordChar (hd post)"
    unfolding standaloneWriteKeyword_def by blast
  define w where "w = map canonicalize mid"
  from keyword_image_word[OF kw] have midne: "mid \<noteq> []" and midw: "\<forall>c \<in> set mid. isWordChar c"
    by simp_all
  have lw: "length w = length mid" by (simp add: w_def)
  have wfix: "map canonicalize w = w" using writeOperators_shape kw w_def by blast
  have "take (length mid) (drop (length pre) q) = mid" by (simp add: split)
  then have m: "matchesAt w q (length pre)"
    unfolding matchesAt_def using wfix lw by (simp add: split w_def)
  have "wordAt q (int (length pre)) = (mid @ post \<noteq> [] \<and> isWordChar (hd (mid @ post)))"
    unfolding split by (rule wordAt_next)
  then have a1: "wordAt q (int (length pre))" using midne midw by simp
  have a2: "\<not> wordAt q (int (length pre) - 1)"
    unfolding split wordAt_prev using left by blast
  have b1: "wordBoundary q (length pre)"
    unfolding wordBoundary_def using a1 a2 by simp
  have q2: "q = (pre @ mid) @ post" by (simp add: split)
  have "wordAt ((pre @ mid) @ post) (int (length (pre @ mid)) - 1)
      = (pre @ mid \<noteq> [] \<and> isWordChar (last (pre @ mid)))"
    by (rule wordAt_prev)
  then have c1: "wordAt q (int (length (pre @ mid)) - 1)"
    using midne midw q2 by simp
  have "wordAt ((pre @ mid) @ post) (int (length (pre @ mid)))
      = (post \<noteq> [] \<and> isWordChar (hd post))"
    by (rule wordAt_next)
  then have c2: "\<not> wordAt q (int (length (pre @ mid)))"
    using right q2 by auto
  have b2: "wordBoundary q (length pre + length w)"
    unfolding wordBoundary_def lw using c1 c2 by simp
  have "matchAt q (length pre)"
    unfolding matchAt_def using b1 b2 m kw w_def by blast
  moreover have "length pre \<in> set [0..<Suc (length q)]" by (simp add: split)
  ultimately show ?thesis unfolding containsWriteOperations_def by blast
qed

text \<open>
  Claim C3. For every query string, \<open>containsWriteOperations\<close> answers true exactly when
  the query holds a standalone, case-insensitive occurrence of one of CREATE, SET,
  DELETE, REMOVE, MERGE. The three queries of the specification classify as read, write
  and read (the substring CREATEfoo is not a standalone occurrence).
\<close>

theorem containsWriteOperations_iff_standalone:
  "(containsWriteOperations q \<longleftrightarrow> standaloneWriteKeyword q) \<and>
   \<not> containsWriteOperations ''MATCH (n) RETURN n'' \<and>
   containsWriteOperations ''MERGE (n:X) RETURN n'' \<and>
   \<not> containsWriteOperations ''MATCH (n) WHERE n.name='CREATEfoo' RETURN n''"
proof (intro conjI)
  show "containsWriteOperations q \<longleftrightarrow> standaloneWriteKeyword q"
  proof
    assume "containsWriteOperations q"
    then obtain i where "matchAt q i"
      unfolding containsWriteOperations_def by blast
    then show "standaloneWriteKeyword q" by (rule matchAt_imp_standalone)
  next
    assume "standaloneWriteKeyword q"
    then show "containsWriteOperations q" by (rule standalone_imp_contains)
  qed
  show "\<not> containsWriteOperations ''MATCH (n) RETURN n''" by code_simp
  show "containsWriteOperations ''MERGE (n:X) RETURN n''" by code_simp
  show "\<not> containsWriteOperations ''MATCH (n) WHERE n.name='CREATEfoo' RETURN n''"
    by code_simp
qed

theorem containsWriteOperations_iff_standalone_witness:
  "containsWriteOperations ''match (n) set n.x = 1'' \<and>
   standaloneWriteKeyword ''match (n) set n.x = 1'' \<and>
   \<not> standaloneWriteKeyword ''RETURN n.dataset''"
proof -
  have a: "containsWriteOperations ''match (n) set n.x = 1''" by code_simp
  have b: "\<not> containsWriteOperations ''RETURN n.dataset''" by code_simp
  from a b containsWriteOperations_iff_standalone [of "''match (n) set n.x = 1''"]
    containsWriteOperations_iff_standalone [of "''RETURN n.dataset''"]
  show ?thesis by blast
qed

section \<open>The write gate of \<^verbatim>\<open>safe_cypher_query\<close>\<close>

text \<open>
  Claim C1. A write query without a security node name, with unsafe mode off and the
  user not insisting, is answered by the structured refusal, without a call of the store.
  Under these conditions the store is never called and nothing is thrown, and the answer
  is the refusal in every case but one: when the process allows insisting and the call
  has no \<^verbatim>\<open>params\<close> (or a null one), reading \<^verbatim>\<open>args.params.force\<close> throws before the
  gate is reached, and the answer is the generic error payload built from the TypeError.
\<close>

theorem write_gate_without_token:
  assumes "containsWriteOperations (query args)" and "noToken args"
    and "NEO4J_UNSAFE_MEMORY_CYPHERS ev \<noteq> Some ''true''"
    and "\<not> userInsists ev args"
  shows "safe_cypher_query eng ev args w =
           (if ALLOW_CYPHER_QUERY_USER_INSISTS ev = Some ''true'' \<and>
               (params args = None \<or> params args = Some JNull)
            then ErrorResponse TypeError
            else Refusal True None False False, w)"
  using assms
  by (auto simp: safe_cypher_query_def noToken_def Let_def paramsForce_def userInsists_def
      split: json.splits option.splits)

text \<open>
  The input at which the refusal is missing: the process allows insisting, the call is
  \<^verbatim>\<open>{query: "CREATE (n:Test) RETURN n"}\<close>.
\<close>

theorem write_gate_without_token_witness:
  "safe_cypher_query idleEngine
        \<lparr>NEO4J_UNSAFE_MEMORY_CYPHERS = None, ALLOW_CYPHER_QUERY_USER_INSISTS = Some ''true''\<rparr>
        \<lparr>query = ''CREATE (n:Test) RETURN n'', securityNodeName = None, params = None\<rparr> emptyWorld
     = (ErrorResponse TypeError, emptyWorld) \<and>
   safe_cypher_query idleEngine
        \<lparr>NEO4J_UNSAFE_MEMORY_CYPHERS = None, ALLOW_CYPHER_QUERY_USER_INSISTS = None\<rparr>
        \<lparr>query = ''CREATE (n:Test) RETURN n'', securityNodeName = None, params = None\<rparr> emptyWorld
     = (Refusal True None False False, emptyWorld)"
proof -
  have q: "containsWriteOperations ''CREATE (n:Test) RETURN n''" by code_simp
  show ?thesis
    using q
      write_gate_without_token
        [of "\<lparr>query = ''CREATE (n:Test) RETURN n'', securityNodeName = None, params = None\<rparr>"
            "\<lparr>NEO4J_UNSAFE_MEMORY_CYPHERS = None, ALLOW_CYPHER_QUERY_USER_INSISTS = Some ''true''\<rparr>"
            idleEngine emptyWorld]
      write_gate_without_token
        [of "\<lparr>query = ''CREATE (n:Test) RETURN n'', securityNodeName = None, params = None\<rparr>"
            "\<lparr>NEO4J_UNSAFE_MEMORY_CYPHERS = None, ALLOW_CYPHER_QUERY_USER_INSISTS = None\<rparr>"
            idleEngine emptyWorld]
    by (simp add: noToken_def userInsists_def)
qed

text \<open>
  Claim C10. When the process allows insisting (\<^verbatim>\<open>ALLOW_CYPHER_QUERY_USER_INSISTS\<close> is
  \<^verbatim>\<open>'true'\<close>) and the call has no \<^verbatim>\<open>params\<close>, reading \<^verbatim>\<open>args.params.force\<close> throws
  a TypeError, which the handler catches: the call returns the generic error payload,
  whatever the query is, and nothing is executed (the world is unchanged).
\<close>

theorem insisting_allowed_without_params:
  assumes "ALLOW_CYPHER_QUERY_USER_INSISTS ev = Some ''true''" and "params args = None"
  shows "safe_cypher_query eng ev args w = (ErrorResponse TypeError, w)"
  using assms by (simp add: safe_cypher_query_def paramsForce_def Let_def)

theorem insisting_allowed_without_params_witness:
  "safe_cypher_query idleEngine
        \<lparr>NEO4J_UNSAFE_MEMORY_CYPHERS = None, ALLOW_CYPHER_QUERY_USER_INSISTS = Some ''true''\<rparr>
        \<lparr>query = ''MATCH (n) RETURN n'', securityNodeName = None, params = None\<rparr> emptyWorld
     = (ErrorResponse TypeError, emptyWorld)"
  using insisting_allowed_without_params
    [of "\<lparr>NEO4J_UNSAFE_MEMORY_CYPHERS = None, ALLOW_CYPHER_QUERY_USER_INSISTS = Some ''true''\<rparr>"
        "\<lparr>query = ''MATCH (n) RETURN n'', securityNodeName = None, params = None\<rparr>"
        idleEngine emptyWorld]
  by simp

section \<open>Sessions of the adapter\<close>

lemma loadGraph_sessions: "openSessions (snd (loadGraph w)) = openSessions w"
  by (simp add: loadGraph_def session_def close_def takeFault_def Let_def
      split: list.splits prod.splits)

lemma deleteEntities_sessions: "openSessions (snd (deleteEntities ns w)) = openSessions w"
  by (simp add: deleteEntities_def session_def close_def takeFault_def Let_def
      split: list.splits option.splits prod.splits)

lemma executeCypherQuery_sessions:
  "openSessions (snd (executeCypherQuery eng q isWrite w)) = openSessions w"
  by (simp add: executeCypherQuery_def session_def close_def takeFault_def Let_def
      split: list.splits option.splits prod.splits)

lemma saveGraph_sessions: "openSessions (snd (saveGraph g w)) = Suc (openSessions w)"
  by (simp add: saveGraph_def session_def takeFault_def Let_def
      split: list.splits option.splits sum.splits)

text \<open>
  Claim C5. Every operation of the adapter that opens a driver session closes it on every
  exit path. \<open>loadGraph\<close>, \<open>deleteEntities\<close> and \<open>executeCypherQuery\<close> do, whether the
  store call throws or not: the number of open sessions is the same after the call. The
  code of \<open>saveGraph\<close> has no \<^verbatim>\<open>close\<close> at all: after every call, failed or not, one
  more session is open.
\<close>

theorem saveGraph_never_closes_its_session:
  "openSessions (snd (saveGraph g w)) = Suc (openSessions w) \<and>
   openSessions (snd (loadGraph w)) = openSessions w \<and>
   openSessions (snd (deleteEntities ns w)) = openSessions w \<and>
   openSessions (snd (executeCypherQuery eng q isWrite w)) = openSessions w"
  by (simp add: saveGraph_sessions loadGraph_sessions deleteEntities_sessions
      executeCypherQuery_sessions)

theorem saveGraph_never_closes_its_session_witness:
  "openSessions emptyWorld = 0 \<and>
   openSessions (snd (saveGraph \<lparr>entities = [entityA], relations = []\<rparr> emptyWorld)) = 1 \<and>
   openSessions (snd (saveGraph \<lparr>entities = [entityA], relations = []\<rparr>
                        (emptyWorld\<lparr>faults := [Some ''ServiceUnavailable'']\<rparr>))) = 1"
  using saveGraph_never_closes_its_session
          [of "\<lparr>entities = [entityA], relations = []\<rparr>" emptyWorld "[]" idleEngine "Text [] JNull" False]
        saveGraph_never_closes_its_session
          [of "\<lparr>entities = [entityA], relations = []\<rparr>" "emptyWorld\<lparr>faults := [Some ''ServiceUnavailable'']\<rparr>"
              "[]" idleEngine "Text [] JNull" False]
  by (simp add: emptyWorld_def)

section \<open>Deleting relations\<close>

lemma edges_mergeEntity: "edges (mergeEntity e s) = edges s"
  by (simp add: mergeEntity_def)

lemma edges_fold_mergeEntity: "edges (fold mergeEntity es s) = edges s"
  by (induction es arbitrary: s) (simp_all add: edges_mergeEntity)

lemma readGraph_relations_unqualified:
  "r \<in> set (relations (readGraph s)) \<Longrightarrow> from_name r = None \<and> to_name r = None"
  by (auto simp: readGraph_def)

lemma mergeRelation_unqualified: "from_name r = None \<Longrightarrow> mergeRelation r s = Inr s"
  by (simp add: mergeRelation_def)

lemma mergeRelations_unqualified:
  "\<forall>r \<in> set rs. from_name r = None \<Longrightarrow> mergeRelations rs s = Inr s"
  by (induction rs) (simp_all add: mergeRelation_unqualified)

lemma loadGraph_result:
  "loadGraph w = (Inr g, w') \<Longrightarrow> g = readGraph (store w) \<and> store w' = store w"
  by (auto simp: loadGraph_def session_def close_def takeFault_def Let_def
      split: list.splits prod.splits option.splits)

lemma loadGraph_error:
  "loadGraph w = (Inl e, w') \<Longrightarrow> store w' = store w"
  by (auto simp: loadGraph_def session_def close_def takeFault_def Let_def
      split: list.splits prod.splits option.splits)

lemma saveGraph_edges_unqualified:
  assumes "\<forall>r \<in> set (relations g). from_name r = None"
  shows "edges (store (snd (saveGraph g w))) = edges (store w)"
  using assms
  by (simp add: saveGraph_def writeGraph_def mergeRelations_unqualified edges_fold_mergeEntity
      session_def takeFault_def Let_def split: list.splits option.splits)

text \<open>
  Claim C4. After a successful \<open>deleteRelations rs\<close> the stored graph holds no relation
  with the identity of a member of \<open>rs\<close>. The code loads the graph, filters the loaded
  list and calls \<open>saveGraph\<close>, whose two statements only merge: no statement removes a
  relationship. (The loaded relations are the property maps of the relationships, which
  hold \<^verbatim>\<open>relationType\<close> alone, so the filter matches none of them either, and on saving
  they match no node.) Whatever \<open>rs\<close> is, the relationships of the store are the same
  after the call.
\<close>

theorem deleteRelations_keeps_every_relationship:
  "edges (store (snd (deleteRelations rs w))) = edges (store w)"
proof (cases "loadGraph w")
  case (Pair r w1)
  show ?thesis
  proof (cases r)
    case (Inl e)
    with Pair show ?thesis
      by (simp add: deleteRelations_def bind_def loadGraph_error)
  next
    case (Inr g)
    with Pair have g: "g = readGraph (store w)" and st: "store w1 = store w"
      using loadGraph_result by blast+
    let ?g = "g\<lparr>relations := filter (\<lambda>r. \<not> (\<exists>d \<in> set rs. sameRelation r d)) (relations g)\<rparr>"
    have "\<forall>r \<in> set (relations ?g). from_name r = None"
      using g readGraph_relations_unqualified by auto
    then have "edges (store (snd (saveGraph ?g w1))) = edges (store w1)"
      by (rule saveGraph_edges_unqualified)
    with Pair Inr st show ?thesis
      by (simp add: deleteRelations_def bind_def)
  qed
qed

text \<open>
  The end-to-end example of the specification: after \<^verbatim>\<open>createEntities([A, B])\<close> and
  \<^verbatim>\<open>createRelations([A-LIKES-B])\<close>, the call \<^verbatim>\<open>deleteRelations([A-LIKES-B])\<close> succeeds,
  the relationship from A to B is still stored, and \<open>loadGraph\<close> still returns it.
\<close>

theorem deleteRelations_keeps_every_relationship_witness:
  "fst (deleteRelations [likesAB] worldAB) = Inr () \<and>
   edges (store (snd (deleteRelations [likesAB] worldAB))) = [(0, 1, ''LIKES'')] \<and>
   map_sum id relations (fst (loadGraph (snd (deleteRelations [likesAB] worldAB))))
     = Inr [\<lparr>from_name = None, to_name = None, relationType = Some ''LIKES''\<rparr>]"
proof -
  have a: "fst (deleteRelations [likesAB] worldAB) = Inr ()" by code_simp
  have b: "edges (store worldAB) = [(0, 1, ''LIKES'')]" by code_simp
  have c: "map_sum id relations (fst (loadGraph (snd (deleteRelations [likesAB] worldAB))))
     = Inr [\<lparr>from_name = None, to_name = None, relationType = Some ''LIKES''\<rparr>]" by code_simp
  from a b c deleteRelations_keeps_every_relationship [of "[likesAB]" worldAB]
  show ?thesis by simp
qed

section \<open>Searching\<close>

text \<open>\<open>includesStr\<close> is containment of a contiguous piece.\<close>

lemma includesStr_iff: "includesStr s sub \<longleftrightarrow> (\<exists>pre post. s = pre @ sub @ post)"
proof
  assume "includesStr s sub"
  then obtain i where i: "take (length sub) (drop i s) = sub"
    unfolding includesStr_def by blast
  have "s = take i s @ drop i s" by simp
  also have "drop i s = take (length sub) (drop i s) @ drop (length sub) (drop i s)"
    by (rule append_take_drop_id[symmetric])
  finally have "s = take i s @ sub @ drop (length sub) (drop i s)"
    using i by simp
  then show "\<exists>pre post. s = pre @ sub @ post" by blast
next
  assume "\<exists>pre post. s = pre @ sub @ post"
  then obtain pre post where s: "s = pre @ sub @ post" by blast
  have "take (length sub) (drop (length pre) s) = sub" by (simp add: s)
  moreover have "length pre \<in> set [0..<Suc (length s)]" by (simp add: s)
  ultimately show "includesStr s sub" unfolding includesStr_def by blast
qed

text \<open>
  Claim C8, as stated: \<open>searchNodes q\<close> returns exactly the entities one of whose fields
  (name, type, an observation) matches \<open>q\<close> in either containment direction, together
  with exactly the relations between returned entities. The stored entity Alice has a
  name that contains the query \<^verbatim>\<open>ali\<close>, so it matches in the sense of the claim; the
  code compares names and types in one direction only (the query has to contain them)
  and returns nothing. And for the query \<^verbatim>\<open>a b\<close> the code returns the entities A and B
  but not the stored relation from A to B: the relations that \<open>loadGraph\<close> returns have
  no \<^verbatim>\<open>from\<close> and no \<^verbatim>\<open>to\<close>, so the filter on the end points finds none.
\<close>

theorem searchNodes_misses_name_containing_query:
  "specSearchMatch ''ali'' storedAlice \<and>
   map_sum id entities (fst (loadGraph worldAlice)) = Inr [storedAlice] \<and>
   fst (searchNodes ''ali'' worldAlice) = Inr \<lparr>entities = [], relations = []\<rparr> \<and>
   edges (store worldAB) = [(0, 1, ''LIKES'')] \<and>
   map fst (nodes (store worldAB)) = [0, 1] \<and>
   fst (searchNodes ''a b'' worldAB) = Inr \<lparr>entities = [storedA, storedB], relations = []\<rparr>"
  by code_simp

text \<open>
  Claim C8, amended. \<open>searchNodes q\<close> returns exactly the stored entities whose
  lower-cased name is contained in the lower-cased query, or whose lower-cased type is
  contained in the lower-cased query, or one of whose observations, lower-cased, contains
  the lower-cased query, in the order of the store. (Nothing is said of the relations.)
\<close>

theorem searchNodes_entities:
  assumes "searchNodes q w = (Inr res, w')"
  shows "entities res = filter (\<lambda>e. includesStr (toLowerCase q) (toLowerCase (name e)) \<or>
                                     includesStr (toLowerCase q) (toLowerCase (entityType e)) \<or>
                                     (\<exists>ob \<in> set (observations e). includesStr (toLowerCase ob) (toLowerCase q)))
                              (map snd (nodes (store w)))"
proof (cases "loadGraph w")
  case (Pair r w1)
  show ?thesis
  proof (cases r)
    case (Inl e)
    with Pair assms show ?thesis by (simp add: searchNodes_def bind_def)
  next
    case (Inr g)
    with Pair have "g = readGraph (store w)" using loadGraph_result by blast
    then have g: "entities g = map snd (nodes (store w))" by (simp add: readGraph_def)
    from Pair Inr assms have "entities res = filter (searchMatch q) (entities g)"
      by (auto simp: searchNodes_def bind_def ret_def Let_def)
    with g show ?thesis by (simp add: searchMatch_def[abs_def])
  qed
qed

theorem searchNodes_entities_witness:
  "fst (searchNodes ''TEA'' worldAlice) = Inr \<lparr>entities = [storedAlice], relations = []\<rparr> \<and>
   [storedAlice] = filter (\<lambda>e. includesStr (toLowerCase ''TEA'') (toLowerCase (name e)) \<or>
                               includesStr (toLowerCase ''TEA'') (toLowerCase (entityType e)) \<or>
                               (\<exists>ob \<in> set (observations e). includesStr (toLowerCase ob) (toLowerCase ''TEA'')))
                          (map snd (nodes (store worldAlice)))"
proof -
  have a: "fst (searchNodes ''TEA'' worldAlice) = Inr \<lparr>entities = [storedAlice], relations = []\<rparr>"
    by code_simp
  then have "searchNodes ''TEA'' worldAlice
      = (Inr \<lparr>entities = [storedAlice], relations = []\<rparr>, snd (searchNodes ''TEA'' worldAlice))"
    by (metis prod.collapse)
  from searchNodes_entities [OF this] a show ?thesis by simp
qed

section \<open>Observations without duplicates\<close>

lemma snd_bind_ret: "snd (bind m (\<lambda>u. ret x) w) = snd (m w)"
  by (simp add: bind_def ret_def split: prod.splits sum.splits)

lemma noDuplicate_mergeEntity:
  assumes "noDuplicateObservations s" and "distinct (observations e)"
  shows "noDuplicateObservations (mergeEntity e s)"
  using assms unfolding noDuplicateObservations_def mergeEntity_def setProps_def
  by (auto split: if_splits)

lemma noDuplicate_fold_mergeEntity:
  assumes "noDuplicateObservations s" and "\<forall>e \<in> set es. distinct (observations e)"
  shows "noDuplicateObservations (fold mergeEntity es s)"
  using assms by (induction es arbitrary: s) (simp_all add: noDuplicate_mergeEntity)

lemma nodes_mergeRelation: "mergeRelation r s = Inr s' \<Longrightarrow> nodes s' = nodes s"
  by (auto simp: mergeRelation_def Let_def split: option.splits if_splits)

lemma nodes_mergeRelations: "mergeRelations rs s = Inr s' \<Longrightarrow> nodes s' = nodes s"
proof (induction rs arbitrary: s)
  case Nil
  then show ?case by simp
next
  case (Cons r rs)
  then show ?case
    by (auto split: sum.splits dest: nodes_mergeRelation)
qed

lemma noDuplicate_saveGraph:
  assumes "noDuplicateObservations (store w)" and "\<forall>e \<in> set (entities g). distinct (observations e)"
  shows "noDuplicateObservations (store (snd (saveGraph g w)))"
proof -
  have f: "noDuplicateObservations (fold mergeEntity (entities g) (store w))"
    using assms by (rule noDuplicate_fold_mergeEntity)
  have "\<And>s'. writeGraph g (store w) = Inr s' \<Longrightarrow> noDuplicateObservations s'"
  proof -
    fix s' assume "writeGraph g (store w) = Inr s'"
    then have "nodes s' = nodes (fold mergeEntity (entities g) (store w))"
      unfolding writeGraph_def by (rule nodes_mergeRelations)
    with f show "noDuplicateObservations s'" by (simp add: noDuplicateObservations_def)
  qed
  then show ?thesis
    using assms(1)
    by (auto simp: saveGraph_def session_def takeFault_def Let_def
        split: list.splits option.splits sum.splits)
qed

lemma readGraph_distinct:
  "noDuplicateObservations s \<Longrightarrow> \<forall>e \<in> set (entities (readGraph s)). distinct (observations e)"
  by (auto simp: noDuplicateObservations_def readGraph_def)

lemma pushObservations_distinct:
  assumes "pushObservations n cs es = Some (es', added)" and "distinct cs"
    and "\<forall>e \<in> set es. distinct (observations e)"
  shows "\<forall>e \<in> set es'. distinct (observations e)"
  using assms
proof (induction es arbitrary: es' added)
  case Nil
  then show ?case by simp
next
  case (Cons a es)
  show ?case
  proof (cases "name a = n")
    case True
    with Cons.prems show ?thesis by (auto simp: Let_def)
  next
    case False
    with Cons.prems obtain es0 where r: "pushObservations n cs es = Some (es0, added)"
      and e: "es' = a # es0"
      by (auto split: option.splits)
    from Cons.IH[OF r] Cons.prems have "\<forall>e \<in> set es0. distinct (observations e)" by simp
    with e Cons.prems show ?thesis by simp
  qed
qed

lemma addAll_distinct:
  assumes "addAll os es = Inr (es', results)" and "\<forall>r \<in> set os. distinct (contents r)"
    and "\<forall>e \<in> set es. distinct (observations e)"
  shows "\<forall>e \<in> set es'. distinct (observations e)"
  using assms
proof (induction os arbitrary: es es' results)
  case Nil
  then show ?case by simp
next
  case (Cons req os)
  from Cons.prems(1) obtain es1 added where p: "pushObservations (entityName req) (contents req) es = Some (es1, added)"
    by (auto split: option.splits)
  with Cons.prems(1) obtain results1 where a: "addAll os es1 = Inr (es', results1)"
    by (auto split: sum.splits)
  have "\<forall>e \<in> set es1. distinct (observations e)"
    using pushObservations_distinct[OF p] Cons.prems by simp
  with Cons.IH[OF a] Cons.prems show ?case by simp
qed

lemma noDuplicate_createEntities:
  assumes "noDuplicateObservations (store w)" and "\<forall>e \<in> set es. distinct (observations e)"
  shows "noDuplicateObservations (store (snd (createEntities es w)))"
proof (cases "loadGraph w")
  case (Pair r w1)
  show ?thesis
  proof (cases r)
    case (Inl e)
    with Pair assms show ?thesis
      by (simp add: createEntities_def bind_def loadGraph_error)
  next
    case (Inr g)
    with Pair have g: "g = readGraph (store w)" and st: "store w1 = store w"
      using loadGraph_result by blast+
    let ?new = "filter (\<lambda>e. \<not> (\<exists>x \<in> set (entities g). name x = name e)) es"
    let ?g = "g\<lparr>entities := entities g @ ?new\<rparr>"
    have "\<forall>e \<in> set (entities ?g). distinct (observations e)"
      using g readGraph_distinct[OF assms(1)] assms(2) by auto
    moreover have "noDuplicateObservations (store w1)" using st assms(1) by simp
    ultimately have "noDuplicateObservations (store (snd (saveGraph ?g w1)))"
      by (rule noDuplicate_saveGraph[rotated])
    then have "noDuplicateObservations (store (snd (bind (saveGraph ?g) (\<lambda>u. ret ?new) w1)))"
      by (simp only: snd_bind_ret)
    with Pair Inr show ?thesis
      by (simp add: createEntities_def bind_def[of loadGraph] Let_def)
  qed
qed

lemma noDuplicate_addObservations:
  assumes "noDuplicateObservations (store w)" and "\<forall>r \<in> set os. distinct (contents r)"
  shows "noDuplicateObservations (store (snd (addObservations os w)))"
proof (cases "loadGraph w")
  case (Pair r w1)
  show ?thesis
  proof (cases r)
    case (Inl e)
    with Pair assms show ?thesis
      by (simp add: addObservations_def bind_def loadGraph_error)
  next
    case (Inr g)
    with Pair have g: "g = readGraph (store w)" and st: "store w1 = store w"
      using loadGraph_result by blast+
    have inv1: "noDuplicateObservations (store w1)" using st assms(1) by simp
    show ?thesis
    proof (cases "addAll os (entities g)")
      case (Inl e)
      with Pair Inr inv1 show ?thesis
        by (simp add: addObservations_def bind_def throw_def)
    next
      case (Inr res)
      obtain es results where res: "res = (es, results)" by (cases res)
      have "\<forall>e \<in> set es. distinct (observations e)"
        using addAll_distinct[OF Inr[unfolded res] assms(2)] g readGraph_distinct[OF assms(1)] by simp
      then have "\<forall>e \<in> set (entities (g\<lparr>entities := es\<rparr>)). distinct (observations e)" by simp
      with inv1 have "noDuplicateObservations (store (snd (saveGraph (g\<lparr>entities := es\<rparr>) w1)))"
        by (rule noDuplicate_saveGraph)
      then have "noDuplicateObservations (store (snd (bind (saveGraph (g\<lparr>entities := es\<rparr>)) (\<lambda>u. ret results) w1)))"
        by (simp only: snd_bind_ret)
      with Pair \<open>r = Inr g\<close> Inr res show ?thesis
        by (simp add: addObservations_def bind_def[of loadGraph])
    qed
  qed
qed

lemma noDuplicate_perform:
  "noDuplicateObservations (store w) \<Longrightarrow> repeatFree c \<Longrightarrow> noDuplicateObservations (store (perform c w))"
  by (cases c) (simp_all add: noDuplicate_createEntities noDuplicate_addObservations)

text \<open>
  Claim C9, as stated: no sequence of \<open>createEntities\<close> and \<open>addObservations\<close> calls, a
  call with repeated strings included, produces a duplicate observation. Neither call
  looks for repetitions inside its own argument: \<open>createEntities\<close> stores the
  observations of a new entity as they are given, and \<open>addObservations\<close> filters the
  contents against the list as it was before the call and appends all that is left.
\<close>

theorem repeated_strings_are_stored:
  "noDuplicateObservations (store emptyWorld) \<and>
   \<not> noDuplicateObservations (store (snd (createEntities
        [\<lparr>name = ''A'', entityType = ''person'', observations = [''x'', ''x''], entityID = None\<rparr>] emptyWorld))) \<and>
   noDuplicateObservations (store worldA) \<and>
   fst (addObservations [\<lparr>entityName = ''A'', contents = [''x'', ''x'']\<rparr>] worldA)
     = Inr [(''A'', [''x'', ''x''])] \<and>
   \<not> noDuplicateObservations
        (store (snd (addObservations [\<lparr>entityName = ''A'', contents = [''x'', ''x'']\<rparr>] worldA)))"
  by code_simp

text \<open>
  Claim C9, amended. Starting from a store in which no entity has a duplicate observation,
  every sequence of \<open>createEntities\<close> and \<open>addObservations\<close> calls that are repeat-free
  (no entity given to \<open>createEntities\<close> repeats an observation, no contents list given
  to \<open>addObservations\<close> repeats a string) leaves every entity without duplicate
  observations, whether the single calls succeed or fail. The lists may overlap with what
  is stored and with each other.
\<close>

theorem repeat_free_calls_keep_observations_distinct:
  assumes "noDuplicateObservations (store w)" and "\<forall>c \<in> set cs. repeatFree c"
  shows "noDuplicateObservations (store (fold perform cs w))"
  using assms by (induction cs arbitrary: w) (simp_all add: noDuplicate_perform)

theorem repeat_free_calls_keep_observations_distinct_witness:
  "noDuplicateObservations (store (fold perform
      [CreateEntities [entityA],
       AddObservations [\<lparr>entityName = ''A'', contents = [''x'', ''y'']\<rparr>],
       AddObservations [\<lparr>entityName = ''A'', contents = [''y'', ''z'']\<rparr>,
                        \<lparr>entityName = ''A'', contents = [''z'', ''x'', ''w'']\<rparr>]] emptyWorld)) \<and>
   map (\<lambda>(i, p). observations p) (nodes (store (fold perform
      [CreateEntities [entityA],
       AddObservations [\<lparr>entityName = ''A'', contents = [''x'', ''y'']\<rparr>],
       AddObservations [\<lparr>entityName = ''A'', contents = [''y'', ''z'']\<rparr>,
                        \<lparr>entityName = ''A'', contents = [''z'', ''x'', ''w'']\<rparr>]] emptyWorld)))
     = [[''x'', ''y'', ''z'', ''w'']]"
proof -
  have a: "noDuplicateObservations (store emptyWorld)"
    by (simp add: noDuplicateObservations_def emptyWorld_def emptyDb_def)
  have b: "\<forall>c \<in> set [CreateEntities [entityA],
       AddObservations [\<lparr>entityName = ''A'', contents = [''x'', ''y'']\<rparr>],
       AddObservations [\<lparr>entityName = ''A'', contents = [''y'', ''z'']\<rparr>,
                        \<lparr>entityName = ''A'', contents = [''z'', ''x'', ''w'']\<rparr>]]. repeatFree c"
    by (simp add: entityA_def)
  have c: "map (\<lambda>(i, p). observations p) (nodes (store (fold perform
      [CreateEntities [entityA],
       AddObservations [\<lparr>entityName = ''A'', contents = [''x'', ''y'']\<rparr>],
       AddObservations [\<lparr>entityName = ''A'', contents = [''y'', ''z'']\<rparr>,
                        \<lparr>entityName = ''A'', contents = [''z'', ''x'', ''w'']\<rparr>]] emptyWorld)))
     = [[''x'', ''y'', ''z'', ''w'']]"
    by code_simp
  from repeat_free_calls_keep_observations_distinct [OF a b] c show ?thesis by simp
qed

section \<open>The create-base-ontology workflow\<close>

lemma executeCypherQuery_cases:
  assumes "executeCypherQuery eng q wr w = (r, w')"
  shows "(\<exists>code. r = Inl (StoreError code) \<and> trace w' = trace w @ [Executed q wr False] \<and> store w' = store w)
       \<or> (r = Inr (snd (runCypher eng q wr (store w))) \<and> trace w' = trace w @ [Executed q wr True]
            \<and> store w' = fst (runCypher eng q wr (store w)))"
  using assms
  by (auto simp: executeCypherQuery_def session_def close_def takeFault_def Let_def
      split: list.splits option.splits prod.splits)

lemma callLLM_cases:
  assumes "callLLM w = (r, w')"
  shows "trace w' = trace w @ [CalledLLM] \<and> store w' = store w"
  using assms by (auto simp: callLLM_def Let_def split: list.splits option.splits)

lemma checkBaseOntologyExists_trace:
  assumes "checkBaseOntologyExists eng subj w = (Inr b, w')"
  shows "trace w' = trace w @ [Executed (Text baseOntologiesQuery (JObj [])) False True, CalledLLM]"
proof -
  obtain r1 w1 where e: "executeCypherQuery eng (Text baseOntologiesQuery (JObj [])) False w = (r1, w1)"
    by (cases "executeCypherQuery eng (Text baseOntologiesQuery (JObj [])) False w")
  obtain r2 w2 where l: "callLLM w1 = (r2, w2)" by (cases "callLLM w1")
  from assms e have ok: "\<exists>rows. r1 = Inr rows"
    by (cases r1) (auto simp: checkBaseOntologyExists_def bind_def)
  with executeCypherQuery_cases[OF e] have t1: "trace w1 = trace w @ [Executed (Text baseOntologiesQuery (JObj [])) False True]"
    by auto
  from callLLM_cases[OF l] have t2: "trace w2 = trace w1 @ [CalledLLM]" by simp
  from assms e l ok have "w' = w2"
    by (cases r2) (auto simp: checkBaseOntologyExists_def bind_def ret_def throw_def Let_def
        split: option.splits if_splits)
  with t1 t2 show ?thesis by simp
qed

lemma removal_last:
  assumes "tryFinally body (bind (removeSecurityNode eng token) (\<lambda>removed. ret ())) w = (r, w')"
  shows "\<exists>ok. last (trace w') = Executed (RemoveSecurityNode token) True ok \<and>
              (ok \<longrightarrow> token \<notin> set (securityNodes (store w')))"
proof -
  obtain rb wb where b: "body w = (rb, wb)" by (cases "body w")
  obtain rr w3 where e: "executeCypherQuery eng (RemoveSecurityNode token) True wb = (rr, w3)"
    by (cases "executeCypherQuery eng (RemoveSecurityNode token) True wb")
  from assms b e have w': "w' = w3"
    by (cases rr) (auto simp: tryFinally_def bind_def ret_def removeSecurityNode_def)
  from executeCypherQuery_cases[OF e] show ?thesis
    unfolding w' by (auto simp: runCypher_def)
qed


lemma parentCheck_cases:
  assumes "(case parent args of
              None \<Rightarrow> ret True
            | Some p \<Rightarrow>
                if p = [] then ret True
                else bind (executeCypherQuery eng
                             (Text parentCheckQuery (JObj [(''parentName'', JStr (normalizeParent p))])) False)
                          (\<lambda>parentResult. ret (parentResult \<noteq> []))) w = (r, w')"
  shows "(r = Inr True \<and> w' = w) \<or>
         (\<exists>p ok. trace w' = trace w @ [Executed (Text parentCheckQuery (JObj [(''parentName'', JStr p)])) False ok]
            \<and> (r = Inr True \<longrightarrow> ok))"
proof (cases "parent args")
  case None
  with assms show ?thesis by (simp add: ret_def)
next
  case (Some p)
  show ?thesis
  proof (cases "p = []")
    case True
    with Some assms show ?thesis by (simp add: ret_def)
  next
    case False
    let ?q = "Text parentCheckQuery (JObj [(''parentName'', JStr (normalizeParent p))])"
    obtain r1 w1 where e: "executeCypherQuery eng ?q False w = (r1, w1)"
      by (cases "executeCypherQuery eng ?q False w")
    from assms Some False e have "w' = w1" and "r = Inr True \<longrightarrow> (\<exists>rows. r1 = Inr rows)"
      by (cases r1; auto simp: bind_def ret_def)+
    with executeCypherQuery_cases[OF e] show ?thesis by auto
  qed
qed

text \<open>
  Claim C6, as stated: on a request whose subject already exists and which is not forced,
  the workflow refuses without ever having created a security token (the existence check
  precedes the issue of the token). In the code the token is created first, before the
  inner \<^verbatim>\<open>try\<close> block in which the existence check runs. The request below is refused,
  and the log of its calls starts with the creation of the security node.
\<close>

theorem refusal_creates_token_first:
  "fst (handleCreateBaseOntology idleEngine ''security-node-1'' physicsArgs worldPhysicsKnown)
     = AlreadyRepresented \<and>
   trace (snd (handleCreateBaseOntology idleEngine ''security-node-1'' physicsArgs worldPhysicsKnown))
     = [Executed (CreateSecurityNode ''security-node-1'') True True,
        Executed (Text baseOntologiesQuery (JObj [])) False True,
        CalledLLM,
        Executed (RemoveSecurityNode ''security-node-1'') True True]"
  by code_simp

lemma executeCypherQuery_succeeds:
  assumes "\<forall>f \<in> set (faults w). f = None"
  shows "\<exists>w'. executeCypherQuery eng q wr w = (Inr (snd (runCypher eng q wr (store w))), w') \<and>
              trace w' = trace w @ [Executed q wr True] \<and>
              (\<forall>f \<in> set (faults w'). f = None) \<and> replies w' = replies w"
  using assms
  by (auto simp: executeCypherQuery_def session_def close_def takeFault_def Let_def
      split: list.splits option.splits prod.splits)

lemma callLLM_answers:
  assumes "replies w = Some r # rs"
  shows "\<exists>w'. callLLM w = (Inr r, w') \<and> trace w' = trace w @ [CalledLLM] \<and> faults w' = faults w"
  using assms by (simp add: callLLM_def Let_def)

lemma answersRepresented_judgement:
  assumes "answersRepresented r"
  shows "(let result = (case json_of r of
                          None \<Rightarrow> JObj [(''isRepresented'', JBool False)]
                        | Some j \<Rightarrow> if truthy j then j else JObj [(''isRepresented'', JBool False)])
          in case getProp result ''representedBy'' of
               None \<Rightarrow> ret (truthyOpt (getProp result ''isRepresented''))
             | Some rb \<Rightarrow>
                 if truthy rb \<and> existing \<noteq> [] \<and> \<not> hasIncludes rb
                 then throw TypeError
                 else ret (truthyOpt (getProp result ''isRepresented''))) = ret True"
proof -
  from assms obtain j where j: "json_of r = Some j"
    and rep: "truthyOpt (getProp j ''isRepresented'')"
    and by_ok: "case getProp j ''representedBy'' of None \<Rightarrow> True | Some rb \<Rightarrow> \<not> truthy rb \<or> hasIncludes rb"
    by (auto simp: answersRepresented_def split: option.splits)
  from rep obtain kvs where "j = JObj kvs"
    by (cases j) (simp_all add: truthyOpt_def)
  then have "truthy j" by simp
  with j rep by_ok show ?thesis
    by (auto simp: Let_def split: option.splits)
qed

lemma check_answers_represented:
  assumes "\<forall>f \<in> set (faults w). f = None" and "replies w = Some r # rs" and "answersRepresented r"
  shows "\<exists>w'. checkBaseOntologyExists eng subj w = (Inr True, w') \<and>
              trace w' = trace w @ [Executed (Text baseOntologiesQuery (JObj [])) False True, CalledLLM] \<and>
              (\<forall>f \<in> set (faults w'). f = None)"
proof -
  from executeCypherQuery_succeeds[OF assms(1)]
  obtain w1 where e: "executeCypherQuery eng (Text baseOntologiesQuery (JObj [])) False w
        = (Inr (snd (runCypher eng (Text baseOntologiesQuery (JObj [])) False (store w))), w1)"
    and t1: "trace w1 = trace w @ [Executed (Text baseOntologiesQuery (JObj [])) False True]"
    and f1: "\<forall>f \<in> set (faults w1). f = None" and r1: "replies w1 = replies w"
    by blast
  from callLLM_answers[of w1 r rs] r1 assms(2)
  obtain w2 where l: "callLLM w1 = (Inr r, w2)" and t2: "trace w2 = trace w1 @ [CalledLLM]"
    and f2: "faults w2 = faults w1"
    by auto
  have "checkBaseOntologyExists eng subj w = (Inr True, w2)"
    unfolding checkBaseOntologyExists_def
    by (simp add: bind_def e l answersRepresented_judgement[OF assms(3)] ret_def)
  with t1 t2 f1 f2 show ?thesis by simp
qed

lemma parentCheck_found:
  assumes "\<forall>f \<in> set (faults w). f = None"
    and "\<forall>p. parentGiven args = Some p \<longrightarrow> snd (eng (parentCheckStatement p) False (store w)) \<noteq> []"
  shows "\<exists>w'. (case parent args of
                 None \<Rightarrow> ret True
               | Some p \<Rightarrow>
                   if p = [] then ret True
                   else bind (executeCypherQuery eng
                                (Text parentCheckQuery (JObj [(''parentName'', JStr (normalizeParent p))])) False)
                             (\<lambda>parentResult. ret (parentResult \<noteq> []))) w = (Inr True, w') \<and>
              trace w' = trace w @ (case parentGiven args of
                                      None \<Rightarrow> []
                                    | Some p \<Rightarrow> [Executed (parentCheckStatement p) False True]) \<and>
              (\<forall>f \<in> set (faults w'). f = None) \<and> replies w' = replies w"
proof (cases "parentGiven args")
  case None
  then have "parent args = None \<or> parent args = Some []"
    by (auto simp: parentGiven_def split: option.splits if_splits)
  with None assms(1) show ?thesis by (auto simp: ret_def)
next
  case (Some p)
  then have p: "parent args = Some p" and ne: "p \<noteq> []"
    by (auto simp: parentGiven_def split: option.splits if_splits)
  from executeCypherQuery_succeeds[OF assms(1)]
  obtain w1 where e: "executeCypherQuery eng (parentCheckStatement p) False w
        = (Inr (snd (runCypher eng (parentCheckStatement p) False (store w))), w1)"
    and t1: "trace w1 = trace w @ [Executed (parentCheckStatement p) False True]"
    and f1: "\<forall>f \<in> set (faults w1). f = None" and r1: "replies w1 = replies w"
    by blast
  have rows: "snd (runCypher eng (parentCheckStatement p) False (store w)) \<noteq> []"
    using assms(2) Some by (simp add: runCypher_def parentCheckStatement_def)
  from e rows p ne have "(case parent args of
                 None \<Rightarrow> ret True
               | Some p \<Rightarrow>
                   if p = [] then ret True
                   else bind (executeCypherQuery eng
                                (Text parentCheckQuery (JObj [(''parentName'', JStr (normalizeParent p))])) False)
                             (\<lambda>parentResult. ret (parentResult \<noteq> []))) w = (Inr True, w1)"
    by (simp add: bind_def ret_def parentCheckStatement_def)
  with t1 f1 r1 Some show ?thesis by simp
qed

text \<open>
  Claim C6, amended. The security token is issued before the existence check: on every
  request whose subject already exists (the text generator answers so) and whose force
  flag is not set, when no call of the store fails and the parent, if one is given,
  exists, the workflow refuses, and its calls are, in this order, the check of the
  parent (exactly when a parent is given), the creation of the security node, the query
  for the existing ontologies and the question to the text generator (the existence
  check), and the removal of the security node; nothing else is executed.
\<close>

theorem refused_request_issues_token_first:
  assumes subj: "subject args = Some subj" "subj \<noteq> []"
    and notForced: "\<not> force_it args"
    and noFailure: "\<forall>f \<in> set (faults w). f = None"
    and parentExists: "\<forall>p. parentGiven args = Some p \<longrightarrow>
                            snd (eng (parentCheckStatement p) False (store w)) \<noteq> []"
    and answer: "replies w = Some r # rs" "answersRepresented r"
  shows "fst (handleCreateBaseOntology eng token args w) = AlreadyRepresented \<and>
         trace (snd (handleCreateBaseOntology eng token args w))
           = trace w @
             (case parentGiven args of
                None \<Rightarrow> []
              | Some p \<Rightarrow> [Executed (parentCheckStatement p) False True]) @
             [Executed (CreateSecurityNode token) True True,
              Executed (Text baseOntologiesQuery (JObj [])) False True,
              CalledLLM,
              Executed (RemoveSecurityNode token) True True]"
proof -
  let ?P = "case parent args of
              None \<Rightarrow> ret True
            | Some p \<Rightarrow>
                if p = [] then ret True
                else bind (executeCypherQuery eng
                             (Text parentCheckQuery (JObj [(''parentName'', JStr (normalizeParent p))])) False)
                          (\<lambda>parentResult. ret (parentResult \<noteq> []))"
  let ?pe = "case parentGiven args of
               None \<Rightarrow> []
             | Some p \<Rightarrow> [Executed (parentCheckStatement p) False True]"
  let ?body = "bind (checkBaseOntologyExists eng subj) (\<lambda>exists.
                 if exists \<and> \<not> force_it args then ret AlreadyRepresented
                 else bind (createBaseOntology eng subj (parent args) token)
                           (\<lambda>(structure, results). ret (Created structure results)))"
  let ?fin = "bind (removeSecurityNode eng token) (\<lambda>removed. ret ())"
  from parentCheck_found[where w = w and args = args and eng = eng, OF noFailure parentExists]
  obtain w1 where p: "?P w = (Inr True, w1)" and t1: "trace w1 = trace w @ ?pe"
    and f1: "\<forall>f \<in> set (faults w1). f = None" and r1: "replies w1 = replies w"
    by blast
  from executeCypherQuery_succeeds[OF f1]
  obtain w2 where c: "executeCypherQuery eng (CreateSecurityNode token) True w1
        = (Inr (snd (runCypher eng (CreateSecurityNode token) True (store w1))), w2)"
    and t2: "trace w2 = trace w1 @ [Executed (CreateSecurityNode token) True True]"
    and f2: "\<forall>f \<in> set (faults w2). f = None" and r2: "replies w2 = replies w1"
    by blast
  from check_answers_represented[OF f2 _ answer(2), of rs eng subj] r2 r1 answer(1)
  obtain w3 where k: "checkBaseOntologyExists eng subj w2 = (Inr True, w3)"
    and t3: "trace w3 = trace w2 @ [Executed (Text baseOntologiesQuery (JObj [])) False True, CalledLLM]"
    and f3: "\<forall>f \<in> set (faults w3). f = None"
    by auto
  from k notForced have b: "?body w2 = (Inr AlreadyRepresented, w3)"
    by (simp add: bind_def ret_def)
  from executeCypherQuery_succeeds[OF f3]
  obtain w4 where f: "executeCypherQuery eng (RemoveSecurityNode token) True w3
        = (Inr (snd (runCypher eng (RemoveSecurityNode token) True (store w3))), w4)"
    and t4: "trace w4 = trace w3 @ [Executed (RemoveSecurityNode token) True True]"
    by blast
  from b f have inner: "tryFinally ?body ?fin w2 = (Inr AlreadyRepresented, w4)"
    by (simp add: tryFinally_def bind_def ret_def removeSecurityNode_def)
  from subj p c inner
  have "handleCreateBaseOntology eng token args w = (AlreadyRepresented, w4)"
    by (simp add: handleCreateBaseOntology_def bind_def createSecurityNode_def)
  with t1 t2 t3 t4 show ?thesis by simp
qed

text \<open>
  A request with a parent, for an engine that finds it: the check of the parent comes
  first in the log.
\<close>

theorem refused_request_issues_token_first_witness:
  "fst (handleCreateBaseOntology oneRowEngine ''security-node-1'' physicsUnderScience worldPhysicsKnown)
     = AlreadyRepresented \<and>
   trace (snd (handleCreateBaseOntology oneRowEngine ''security-node-1'' physicsUnderScience
                 worldPhysicsKnown))
     = [Executed (Text parentCheckQuery (JObj [(''parentName'', JStr ''Science'')])) False True,
        Executed (CreateSecurityNode ''security-node-1'') True True,
        Executed (Text baseOntologiesQuery (JObj [])) False True,
        CalledLLM,
        Executed (RemoveSecurityNode ''security-node-1'') True True]"
proof -
  have s: "subject physicsUnderScience = Some ''Physics''" "''Physics'' \<noteq> []"
    and n: "\<not> force_it physicsUnderScience"
    by (simp_all add: physicsUnderScience_def)
  have f: "\<forall>f \<in> set (faults worldPhysicsKnown). f = None"
    by (simp add: worldPhysicsKnown_def emptyWorld_def)
  have p: "\<forall>p. parentGiven physicsUnderScience = Some p \<longrightarrow>
             snd (oneRowEngine (parentCheckStatement p) False (store worldPhysicsKnown)) \<noteq> []"
    by (simp add: oneRowEngine_def)
  have r: "replies worldPhysicsKnown = Some representedReply # []"
    by (simp add: worldPhysicsKnown_def emptyWorld_def)
  have a: "answersRepresented representedReply"
    by (simp add: answersRepresented_def representedReply_def truthyOpt_def)
  have g: "parentGiven physicsUnderScience = Some ''(BO): Science''"
    by (simp add: parentGiven_def physicsUnderScience_def)
  have t: "trace worldPhysicsKnown = []"
    by (simp add: worldPhysicsKnown_def emptyWorld_def)
  from refused_request_issues_token_first
         [where eng = oneRowEngine and args = physicsUnderScience and w = worldPhysicsKnown
            and token = "''security-node-1''", OF s n f p r a]
  show ?thesis
    by (simp add: g t parentCheckStatement_def normalizeParent_def)
qed

text \<open>
  Claim C7, as stated: every invocation that creates a security node also removes it
  before returning, on every path, so that no token outlives the workflow. The removal
  is a statement sent to the store from the \<^verbatim>\<open>finally\<close> block, and it can fail like
  any other: below the store accepts the creation of the node and is unavailable from
  then on; the existence check fails, the removal fails, the workflow returns the error,
  and the security node is still in the store.
\<close>

theorem token_survives_failed_removal:
  "fst (handleCreateBaseOntology idleEngine ''security-node-1'' physicsArgs worldStoreGoesDown)
     = Failed (StoreError ''ServiceUnavailable'') \<and>
   trace (snd (handleCreateBaseOntology idleEngine ''security-node-1'' physicsArgs worldStoreGoesDown))
     = [Executed (CreateSecurityNode ''security-node-1'') True True,
        Executed (Text baseOntologiesQuery (JObj [])) False False,
        Executed (RemoveSecurityNode ''security-node-1'') True False] \<and>
   securityNodes (store (snd (handleCreateBaseOntology idleEngine ''security-node-1'' physicsArgs
                                worldStoreGoesDown)))
     = [''security-node-1'']"
  by code_simp

text \<open>
  Claim C7, amended. Every invocation of \<open>handleCreateBaseOntology\<close> that creates a
  security node sends the removal of that node to the store as its last call before
  returning, on every path (success, refusal because the subject already exists, and the
  failure of any step in between alike); and whenever the store carries out that
  removal, no security node of that name is left. (The generated name is fresh: no node
  of that name has been created before the invocation.)
\<close>

theorem token_removed_on_every_path:
  assumes run: "handleCreateBaseOntology eng token args w = (r, w')"
    and fresh: "Executed (CreateSecurityNode token) True True \<notin> set (trace w)"
    and created: "Executed (CreateSecurityNode token) True True \<in> set (trace w')"
  shows "\<exists>ok. last (trace w') = Executed (RemoveSecurityNode token) True ok \<and>
              (ok \<longrightarrow> token \<notin> set (securityNodes (store w')))"
proof (cases "subject args")
  case None
  with run fresh created show ?thesis by (simp add: handleCreateBaseOntology_def)
next
  case (Some subj)
  show ?thesis
  proof (cases "subj = []")
    case True
    with Some run fresh created show ?thesis by (simp add: handleCreateBaseOntology_def)
  next
    case False
    let ?P = "case parent args of
                None \<Rightarrow> ret True
              | Some p \<Rightarrow>
                  if p = [] then ret True
                  else bind (executeCypherQuery eng
                               (Text parentCheckQuery (JObj [(''parentName'', JStr (normalizeParent p))])) False)
                            (\<lambda>parentResult. ret (parentResult \<noteq> []))"
    let ?body = "bind (checkBaseOntologyExists eng subj) (\<lambda>exists.
                   if exists \<and> \<not> force_it args then ret AlreadyRepresented
                   else bind (createBaseOntology eng subj (parent args) token)
                             (\<lambda>(structure, results). ret (Created structure results)))"
    let ?inner = "tryFinally ?body (bind (removeSecurityNode eng token) (\<lambda>removed. ret ()))"
    obtain rp wp where p: "?P w = (rp, wp)" by (cases "?P w")
    from parentCheck_cases[OF p] fresh
    have freshp: "Executed (CreateSecurityNode token) True True \<notin> set (trace wp)" by auto
    show ?thesis
    proof (cases "rp = Inr True")
      case notfound: False
      with run Some False p have "w' = wp"
        by (cases rp) (auto simp: handleCreateBaseOntology_def bind_def ret_def)
      with freshp created show ?thesis by simp
    next
      case found: True
      obtain rc wc where c: "executeCypherQuery eng (CreateSecurityNode token) True wp = (rc, wc)"
        by (cases "executeCypherQuery eng (CreateSecurityNode token) True wp")
      show ?thesis
      proof (cases rc)
        case (Inl e)
        with run Some False p found c have "w' = wc"
          by (simp add: handleCreateBaseOntology_def bind_def createSecurityNode_def)
        moreover from executeCypherQuery_cases[OF c] Inl
        have "trace wc = trace wp @ [Executed (CreateSecurityNode token) True False]" by auto
        ultimately show ?thesis using freshp created by simp
      next
        case (Inr rows)
        obtain ri wi where i: "?inner wc = (ri, wi)" by (cases "?inner wc")
        from run Some False p found c Inr i have "w' = wi"
          by (cases ri) (simp_all add: handleCreateBaseOntology_def bind_def createSecurityNode_def)
        with removal_last[OF i] show ?thesis by simp
      qed
    qed
  qed
qed



theorem token_removed_on_every_path_witness:
  "fst (handleCreateBaseOntology idleEngine ''security-node-1'' physicsArgs worldStatementFails)
     = Failed (StoreError ''Neo.ClientError.Statement.SyntaxError'') \<and>
   last (trace (snd (handleCreateBaseOntology idleEngine ''security-node-1'' physicsArgs worldStatementFails)))
     = Executed (RemoveSecurityNode ''security-node-1'') True True \<and>
   ''security-node-1'' \<notin> set (securityNodes (store
       (snd (handleCreateBaseOntology idleEngine ''security-node-1'' physicsArgs worldStatementFails))))"
proof -
  let ?run = "handleCreateBaseOntology idleEngine ''security-node-1'' physicsArgs worldStatementFails"
  have a: "fst ?run = Failed (StoreError ''Neo.ClientError.Statement.SyntaxError'')" by code_simp
  have b: "last (trace (snd ?run)) = Executed (RemoveSecurityNode ''security-node-1'') True True"
    by code_simp
  have fresh: "Executed (CreateSecurityNode ''security-node-1'') True True \<notin> set (trace worldStatementFails)"
    by (simp add: worldStatementFails_def emptyWorld_def)
  have created: "Executed (CreateSecurityNode ''security-node-1'') True True \<in> set (trace (snd ?run))"
    by code_simp
  have "?run = (fst ?run, snd ?run)" by simp
  from token_removed_on_every_path [OF this fresh created] b
  have "''security-node-1'' \<notin> set (securityNodes (store (snd ?run)))" by auto
  with a b show ?thesis by simp
qed

end
